theory Spec2Isabelle
  imports Main "HOL-Library.Word"
begin

section \<open>OneDrive-Sync: the client and the plugin as HOL functions\<close>

text \<open>
  The development follows \<^verbatim>\<open>src/src/clients/onedriveClient.ts\<close>,
  \<^verbatim>\<open>src/src/clients/onedriveAuth.ts\<close> and \<^verbatim>\<open>src/main.ts\<close>.

  \<^item> Interfaces are records, with the fields the TypeScript declarations give them.
    An optional field (\<^verbatim>\<open>refresh_token?: string\<close>) is an \<open>option\<close>.
  \<^item> Every \<^verbatim>\<open>throw\<close> is a constructor of \<open>js_error\<close>; an \<^verbatim>\<open>async\<close>
    function that may throw returns \<open>js_error + 'a\<close>, \<open>Inl\<close> being the rejection.
  \<^item> Mutation of \<^verbatim>\<open>this.config\<close> is state passing: the configuration goes in and
    the updated configuration comes out.
  \<^item> The outside world (the token endpoint, the Graph API, the clock, the vault) is a
    record of functions, \<open>env\<close>. A remote call is appended to the trace \<open>calls\<close>
    before its reply is looked up, and the reply may depend on the whole trace so far:
    any deterministic server is such a function.
  \<^item> JavaScript numbers are modelled as unbounded integers (\<open>int\<close>, \<open>nat\<close> for sizes
    and offsets): the code only adds, multiplies and compares integers far below
    \<open>2^53\<close>.
\<close>

subsection \<open>JavaScript values\<close>

type_synonym byte = "8 word"

text \<open>\<^verbatim>\<open>!!s\<close> for a string: the empty string is the only falsy one.\<close>

definition truthy :: "string \<Rightarrow> bool" where
  "truthy s = (s \<noteq> [])"

text \<open>\<^verbatim>\<open>!!x\<close> for an optional string: \<^verbatim>\<open>undefined\<close>, \<^verbatim>\<open>null\<close> and
  \<^verbatim>\<open>""\<close> are falsy.\<close>

definition truthy_opt :: "string option \<Rightarrow> bool" where
  "truthy_opt x = (case x of None \<Rightarrow> False | Some s \<Rightarrow> truthy s)"

text \<open>The decimal text a template literal gives an integer (\<^verbatim>\<open>`${offset}`\<close>).\<close>

definition digit_char :: "nat \<Rightarrow> char" where
  "digit_char d = ''0123456789'' ! d"

function nat_toString :: "nat \<Rightarrow> string" where
  "nat_toString n = (if n < 10 then [digit_char n] else nat_toString (n div 10) @ [digit_char (n mod 10)])"
  by pat_completeness auto
termination
  by (relation "measure id") auto

definition Number_toString :: "int \<Rightarrow> string" where
  "Number_toString i = (if i < 0 then CHR ''-'' # nat_toString (nat (- i)) else nat_toString (nat i))"

text \<open>\<^verbatim>\<open>uint8.subarray(begin, end)\<close> for \<open>begin \<le> end\<close>, as the upload loop calls it.\<close>

definition subarray :: "byte list \<Rightarrow> nat \<Rightarrow> nat \<Rightarrow> byte list" where
  "subarray uint8 begin_off end_off = take (end_off - begin_off) (drop begin_off uint8)"

subsection \<open>Errors\<close>

text \<open>One constructor per \<^verbatim>\<open>throw\<close> of the source, carrying what its message
  interpolates (the messages are quoted here without their accents); the last four are
  the rejections of the platform's own calls and the runtime's own error.\<close>

datatype js_error =
    NoRefreshToken
      \<comment> \<open>\<^verbatim>\<open>"No refreshToken. El usuario debe autenticarse primero."\<close>\<close>
  | RefreshTokenError string
      \<comment> \<open>\<^verbatim>\<open>`Refresh token error: ${result.error_description || result.error}`\<close>\<close>
  | CreateUploadSessionError int string
      \<comment> \<open>\<^verbatim>\<open>`Error al crear UploadSession: ${status} - ${text}`\<close>\<close>
  | NoUploadUrl
      \<comment> \<open>\<^verbatim>\<open>"No se obtuvo uploadUrl de la sesion."\<close>\<close>
  | ChunkError int
      \<comment> \<open>\<^verbatim>\<open>`Error subiendo chunk. HTTP ${resp.status}`\<close>\<close>
  | NoFinalDriveItem
      \<comment> \<open>\<^verbatim>\<open>"No se obtuvo DriveItem final tras la subida."\<close>\<close>
  | RequestRejected
      \<comment> \<open>\<^verbatim>\<open>request\<close> or \<^verbatim>\<open>fetch\<close> rejected, or \<^verbatim>\<open>JSON.parse\<close> threw on the text\<close>
  | BodyNotJson
      \<comment> \<open>\<^verbatim>\<open>resp.json()\<close> rejected\<close>
  | TypeError
      \<comment> \<open>a property read on \<^verbatim>\<open>null\<close>: \<^verbatim>\<open>data.value\<close>, \<^verbatim>\<open>sessionData.uploadUrl\<close>,
          \<^verbatim>\<open>rjson.id\<close>\<close>
  | ReadBinaryRejected
      \<comment> \<open>\<^verbatim>\<open>vault.readBinary\<close> rejected\<close>

subsection \<open>The configuration and the OAuth replies\<close>

record OneDriveConfig =
  clientId :: string
  authority :: string
  redirectUri :: string
  accessToken :: string
  refreshToken :: string
  accessTokenExpiresAt :: int
  remoteBaseFolder :: string

record AuthSuccessResponse =
  token_type :: string
  expires_in :: int
  ext_expires_in :: "int option"
  scope :: string
  access_token :: string
  refresh_token :: "string option"
  id_token :: "string option"

record AuthErrorResponse =
  error :: string
  error_description :: string
  error_codes :: "int list option"

text \<open>\<^verbatim>\<open>AuthSuccessResponse | AuthErrorResponse\<close>; the source tells them apart by
  \<^verbatim>\<open>"error" in result\<close>.\<close>

datatype token_result = AuthSuccess AuthSuccessResponse | AuthError AuthErrorResponse

definition SCOPES :: "string list" where
  "SCOPES = [''User.Read'', ''Files.ReadWrite'', ''offline_access'']"

definition CHUNK_SIZE :: nat where
  "CHUNK_SIZE = 5 * 1024 * 1024"

text \<open>\<^verbatim>\<open>SCOPES.join(" ")\<close>.\<close>

fun join :: "string \<Rightarrow> string list \<Rightarrow> string" where
  "join sep [] = []"
| "join sep [x] = x"
| "join sep (x # y # ys) = x @ sep @ join sep (y # ys)"

subsection \<open>Remote calls\<close>

datatype call_body =
    NoBody
  | Form "(string \<times> string) list"  \<comment> \<open>\<^verbatim>\<open>new URLSearchParams({...}).toString()\<close>, by its pairs\<close>
  | JsonText string
  | Bytes "byte list"

record http_call =
  url :: string
  http_method :: string  \<comment> \<open>\<^verbatim>\<open>method\<close>\<close>
  contentType :: "string option"  \<comment> \<open>the \<^verbatim>\<open>contentType\<close> parameter of \<^verbatim>\<open>request\<close>\<close>
  headers :: "(string \<times> string) list"
  body :: call_body

text \<open>What \<^verbatim>\<open>JSON.parse\<close> and \<^verbatim>\<open>resp.json()\<close> give, as far as the property reads
  of the caller can tell. The literal \<^verbatim>\<open>null\<close> is \<open>JsonNull\<close>: a property read on it
  throws. Every other value is \<open>JsonValue r\<close>, where \<open>r\<close> holds the fields the caller
  reads, an absent one being \<open>None\<close>; a number, a string, a boolean or an array has
  none of them.\<close>

datatype 'a parsed = JsonNull | JsonValue 'a

text \<open>A \<^verbatim>\<open>fetch\<close> Response: the status, the text of the body and what
  \<^verbatim>\<open>resp.json()\<close> resolves to (\<open>None\<close> when it rejects).\<close>

record 'a Response =
  status :: int
  text_body :: string
  json :: "'a parsed option"

definition ok :: "('a, 'b) Response_scheme \<Rightarrow> bool" where
  "ok resp = (200 \<le> status resp \<and> status resp \<le> 299)"

text \<open>The part of a Graph \<^verbatim>\<open>DriveItem\<close> the code reads.\<close>

record DriveItem =
  item_id :: "string option"    \<comment> \<open>\<^verbatim>\<open>id\<close>\<close>
  item_name :: "string option"  \<comment> \<open>\<^verbatim>\<open>name\<close>\<close>
  item_size :: "int option"     \<comment> \<open>\<^verbatim>\<open>size\<close>\<close>

record session_data =
  uploadUrl :: "string option"

text \<open>\<^verbatim>\<open>{ value?: DriveItem[] }\<close>.\<close>

record children_data =
  value' :: "DriveItem list option"

subsection \<open>The vault\<close>

text \<open>\<open>is_TFile child\<close> is \<^verbatim>\<open>child instanceof TFile\<close>; a \<^verbatim>\<open>TAbstractFile\<close> of
  the vault is a file or a folder.\<close>

datatype TAbstractFile =
    is_TFile: TFile (path: string)
  | TFolder (path: string) (children: "TAbstractFile list")

subsection \<open>The environment and the trace\<close>

record world =
  calls :: "http_call list"  \<comment> \<open>the remote calls issued so far, oldest first\<close>
  ticks :: nat               \<comment> \<open>how many times \<^verbatim>\<open>Date.now()\<close> was read\<close>

record env =
  Date_now :: "nat \<Rightarrow> int"
    \<comment> \<open>the value of the \<open>k\<close>-th read of the clock\<close>
  encodeURI :: "string \<Rightarrow> string"
  request_token :: "http_call list \<Rightarrow> http_call \<Rightarrow> token_result option"
    \<comment> \<open>\<^verbatim>\<open>JSON.parse(await request(...))\<close> at the token endpoint; \<open>None\<close> when either
        throws, or when the value is one on which \<^verbatim>\<open>"error" in result\<close> throws\<close>
  request_children :: "http_call list \<Rightarrow> http_call \<Rightarrow> children_data parsed option"
    \<comment> \<open>the same for the listing, which \<^verbatim>\<open>request\<close> resolves only on a success status\<close>
  fetch_session :: "http_call list \<Rightarrow> http_call \<Rightarrow> session_data Response option"
  fetch_chunk :: "http_call list \<Rightarrow> http_call \<Rightarrow> DriveItem Response option"
  getAbstractFileByPath :: "string \<Rightarrow> TAbstractFile option"
  readBinary :: "TAbstractFile \<Rightarrow> byte list option"

definition now :: "env \<Rightarrow> world \<Rightarrow> int \<times> world" where
  "now e w = (Date_now e (ticks w), w\<lparr>ticks := Suc (ticks w)\<rparr>)"

definition issue :: "http_call \<Rightarrow> world \<Rightarrow> world" where
  "issue c w = w\<lparr>calls := calls w @ [c]\<rparr>"

subsection \<open>Token refresh\<close>

definition refresh_call :: "'a OneDriveConfig_scheme \<Rightarrow> http_call" where
  "refresh_call config =
     \<lparr>url = authority config @ ''/oauth2/v2.0/token'',
      http_method = ''POST'',
      contentType = Some ''application/x-www-form-urlencoded'',
      headers = [],
      body = Form [(''client_id'', clientId config),
                   (''grant_type'', ''refresh_token''),
                   (''refresh_token'', refreshToken config),
                   (''scope'', join '' '' SCOPES)]\<rparr>"

definition refreshAccessToken ::
  "env \<Rightarrow> 'a OneDriveConfig_scheme \<Rightarrow> world \<Rightarrow> (js_error + token_result) \<times> world" where
  "refreshAccessToken e config w =
     (if \<not> truthy (refreshToken config) then (Inl NoRefreshToken, w)
      else
        let c = refresh_call config in
        case request_token e (calls w) c of
          None \<Rightarrow> (Inl RequestRejected, issue c w)
        | Some r \<Rightarrow> (Inr r, issue c w))"

definition getAccessToken ::
  "env \<Rightarrow> 'a OneDriveConfig_scheme \<Rightarrow> world \<Rightarrow>
     (js_error + string) \<times> 'a OneDriveConfig_scheme \<times> world" where
  "getAccessToken e config w0 =
     (let (t, w1) = now e w0 in
      if truthy (accessToken config) \<and> accessTokenExpiresAt config > t
      then (Inr (accessToken config), config, w1)
      else
        case refreshAccessToken e config w1 of
          (Inl err, w2) \<Rightarrow> (Inl err, config, w2)
        | (Inr (AuthError result), w2) \<Rightarrow>
            (Inl (RefreshTokenError
                    (if truthy (error_description result) then error_description result
                     else error result)),
             config, w2)
        | (Inr (AuthSuccess result), w2) \<Rightarrow>
            let expiresInMs = (if expires_in result \<noteq> 0 then expires_in result else 3600) * 1000;
                (t', w3) = now e w2;
                config' = config
                  \<lparr>accessToken := access_token result,
                   refreshToken := (case refresh_token result of Some r \<Rightarrow> r | None \<Rightarrow> []),
                   accessTokenExpiresAt := t' + expiresInMs - 120000\<rparr>
            in (Inr (accessToken config'), config', w3))"

subsection \<open>Listing the remote folder\<close>

definition children_call :: "'a OneDriveConfig_scheme \<Rightarrow> string \<Rightarrow> http_call" where
  "children_call config token =
     (let path = (if truthy (remoteBaseFolder config)
                  then ''/drive/root:/'' @ remoteBaseFolder config @ '':/children''
                  else ''/drive/root/children'')
      in \<lparr>url = ''https://graph.microsoft.com/v1.0'' @ path,
          http_method = ''GET'',
          contentType = None,
          headers = [(''Authorization'', ''Bearer '' @ token)],
          body = NoBody\<rparr>)"

definition listRemoteFolder ::
  "env \<Rightarrow> 'a OneDriveConfig_scheme \<Rightarrow> world \<Rightarrow>
     (js_error + DriveItem list) \<times> 'a OneDriveConfig_scheme \<times> world" where
  "listRemoteFolder e config w0 =
     (case getAccessToken e config w0 of
        (Inl err, config1, w1) \<Rightarrow> (Inl err, config1, w1)
      | (Inr token, config1, w1) \<Rightarrow>
          let c = children_call config1 token in
          case request_children e (calls w1) c of
            None \<Rightarrow> (Inl RequestRejected, config1, issue c w1)
          | Some parsed \<Rightarrow>
              (case parsed of
                 JsonNull \<Rightarrow> (Inl TypeError, config1, issue c w1)
               | JsonValue data \<Rightarrow>
                   (Inr (case value' data of Some v \<Rightarrow> v | None \<Rightarrow> []), config1, issue c w1)))"

subsection \<open>The chunked upload\<close>

definition session_call :: "env \<Rightarrow> 'a OneDriveConfig_scheme \<Rightarrow> string \<Rightarrow> string \<Rightarrow> http_call" where
  \<open>session_call e config token relativePath =
     (let fullPath = ''/drive/root:''
            @ (if truthy (remoteBaseFolder config) then ''/'' @ remoteBaseFolder config else [])
            @ ''/'' @ relativePath @ '':/createUploadSession''
      in \<lparr>url = ''https://graph.microsoft.com/v1.0'' @ encodeURI e fullPath,
          http_method = ''POST'',
          contentType = None,
          headers = [(''Authorization'', ''Bearer '' @ token),
                     (''Content-Type'', ''application/json'')],
          body = JsonText ''{"item":{"@microsoft.graph.conflictBehavior":"replace"}}''\<rparr>)\<close>

text \<open>The \<^verbatim>\<open>PUT\<close> of the range \<open>[offset, chunkEnd)\<close> of \<open>content\<close>.\<close>

definition chunk_call :: "string \<Rightarrow> byte list \<Rightarrow> nat \<Rightarrow> nat \<Rightarrow> http_call" where
  "chunk_call upload_url content offset chunkEnd =
     \<lparr>url = upload_url,
      http_method = ''PUT'',
      contentType = None,
      headers = [(''Content-Type'', ''application/octet-stream''),
                 (''Content-Range'',
                    ''bytes '' @ Number_toString (int offset) @ ''-''
                    @ Number_toString (int chunkEnd - 1) @ ''/''
                    @ Number_toString (int (length content)))],
      body = Bytes (subarray content offset chunkEnd)\<rparr>"

text \<open>The \<^verbatim>\<open>while (offset < fileSize)\<close> loop, from the given \<open>offset\<close> and
  \<open>finalItem\<close>. It returns \<open>finalItem\<close> as the loop leaves it, or the error thrown
  inside the loop.\<close>

function uploadChunks ::
  "env \<Rightarrow> string \<Rightarrow> byte list \<Rightarrow> nat \<Rightarrow> DriveItem option \<Rightarrow> world \<Rightarrow>
     (js_error + DriveItem option) \<times> world" where
  "uploadChunks e upload_url content offset finalItem w =
     (if offset < length content then
        let chunkEnd = min (offset + CHUNK_SIZE) (length content);
            c = chunk_call upload_url content offset chunkEnd
        in case fetch_chunk e (calls w) c of
             None \<Rightarrow> (Inl RequestRejected, issue c w)
           | Some resp \<Rightarrow>
               if \<not> ok resp then (Inl (ChunkError (status resp)), issue c w)
               else
                 case json resp of
                   None \<Rightarrow> (Inl BodyNotJson, issue c w)
                 | Some parsed \<Rightarrow>
                     (case parsed of
                        JsonNull \<Rightarrow> (Inl TypeError, issue c w)
                      | JsonValue rjson \<Rightarrow>
                          uploadChunks e upload_url content chunkEnd
                            (if truthy_opt (item_id rjson) then Some rjson else finalItem)
                            (issue c w))
      else (Inr finalItem, w))"
  by pat_completeness auto
termination
  by (relation "measure (\<lambda>(e, upload_url, content, offset, finalItem, w). length content - offset)")
     (auto simp: CHUNK_SIZE_def)

definition uploadFile ::
  "env \<Rightarrow> 'a OneDriveConfig_scheme \<Rightarrow> world \<Rightarrow> string \<Rightarrow> byte list \<Rightarrow>
     (js_error + DriveItem) \<times> 'a OneDriveConfig_scheme \<times> world" where
  "uploadFile e config w0 relativePath content =
     (case getAccessToken e config w0 of
        (Inl err, config1, w1) \<Rightarrow> (Inl err, config1, w1)
      | (Inr token, config1, w1) \<Rightarrow>
          let c = session_call e config1 token relativePath;
              w2 = issue c w1
          in case fetch_session e (calls w1) c of
               None \<Rightarrow> (Inl RequestRejected, config1, w2)
             | Some sessionResp \<Rightarrow>
                 if \<not> ok sessionResp
                 then (Inl (CreateUploadSessionError (status sessionResp) (text_body sessionResp)),
                       config1, w2)
                 else
                   case json sessionResp of
                     None \<Rightarrow> (Inl BodyNotJson, config1, w2)
                   | Some JsonNull \<Rightarrow> (Inl TypeError, config1, w2)
                   | Some (JsonValue sessionData) \<Rightarrow>
                       if \<not> truthy_opt (uploadUrl sessionData)
                       then (Inl NoUploadUrl, config1, w2)
                       else
                         case uploadChunks e (the (uploadUrl sessionData)) content 0 None w2 of
                           (Inl err, w3) \<Rightarrow> (Inl err, config1, w3)
                         | (Inr None, w3) \<Rightarrow> (Inl NoFinalDriveItem, config1, w3)
                         | (Inr (Some finalItem), w3) \<Rightarrow> (Inr finalItem, config1, w3))"

subsection \<open>Storing the tokens of a successful authentication (onedriveAuth.ts)\<close>

datatype emptyFile_policy = EmptySkip | EmptyError

record OnedriveFullConfig =
  accessToken' :: string                     \<comment> \<open>\<^verbatim>\<open>accessToken\<close>\<close>
  clientID :: string
  authority' :: string                       \<comment> \<open>\<^verbatim>\<open>authority\<close>\<close>
  refreshToken' :: string                    \<comment> \<open>\<^verbatim>\<open>refreshToken\<close>\<close>
  accessTokenExpiresInSeconds :: int
  accessTokenExpiresAtTime :: int
  deltaLink :: string
  username :: string
  credentialsShouldBeDeletedAtTime :: int
  emptyFile :: emptyFile_policy
  remoteBaseDir :: "string option"

definition OAUTH2_FORCE_EXPIRE_MILLISECONDS :: int where
  "OAUTH2_FORCE_EXPIRE_MILLISECONDS = 1000 * 60 * 60 * 24 * 80"

text \<open>\<open>saveUpdatedConfigFunc\<close> is \<open>None\<close> when the caller passes no hook; a hook
  resolves (\<open>Inr ()\<close>) or rejects.\<close>

definition setConfigBySuccessfulAuthInplace ::
  "env \<Rightarrow> OnedriveFullConfig \<Rightarrow> AuthSuccessResponse \<Rightarrow> (unit \<Rightarrow> js_error + unit) option \<Rightarrow>
     world \<Rightarrow> (js_error + unit) \<times> OnedriveFullConfig \<times> world" where
  "setConfigBySuccessfulAuthInplace e config authRes saveUpdatedConfigFunc w0 =
     (let (t1, w1) = now e w0;
          (t2, w2) = now e w1;
          config' = config
            \<lparr>accessToken' := access_token authRes,
             accessTokenExpiresAtTime := t1 + expires_in authRes * 1000 - 5 * 60 * 1000,
             accessTokenExpiresInSeconds := expires_in authRes,
             refreshToken' := (if truthy_opt (refresh_token authRes)
                               then the (refresh_token authRes) else []),
             credentialsShouldBeDeletedAtTime := t2 + OAUTH2_FORCE_EXPIRE_MILLISECONDS\<rparr>
      in case saveUpdatedConfigFunc of
           None \<Rightarrow> (Inr (), config', w2)
         | Some save \<Rightarrow> (save (), config', w2))"

subsection \<open>The plugin (main.ts)\<close>

record PluginSettings = OneDriveConfig +
  localVaultFolder :: string
  periodicSync :: bool
  syncIntervalMinutes :: int

text \<open>The notices the plugin shows, by the place that shows them.\<close>

datatype notice =
    NotAuthenticated               \<comment> \<open>the notice of line 165, "not authenticated in OneDrive"\<close>
  | LocalFolderMissing string      \<comment> \<open>line 177, with the local folder path\<close>
  | SyncCompleted string           \<comment> \<open>line 193, with \<^verbatim>\<open>`${allFiles.length}`\<close>\<close>
  | SyncFailed                     \<comment> \<open>line 198\<close>

record plugin =
  settings :: PluginSettings
  statusBarEl :: "string option"   \<comment> \<open>the text of the status bar item; \<open>None\<close> when there is none\<close>
  notices :: "notice list"
  console_error :: "js_error list" \<comment> \<open>what \<^verbatim>\<open>console.error\<close> was given\<close>
  remote :: world

definition isAuthenticated :: "plugin \<Rightarrow> bool" where
  "isAuthenticated p = (truthy (accessToken (settings p)) \<and> truthy (refreshToken (settings p)))"

definition updateStatusBar :: "string \<Rightarrow> plugin \<Rightarrow> plugin" where
  "updateStatusBar st p =
     (case statusBarEl p of
        None \<Rightarrow> p
      | Some _ \<Rightarrow> p\<lparr>statusBarEl := Some (''OneDrive: '' @ st)\<rparr>)"

definition Notice :: "notice \<Rightarrow> plugin \<Rightarrow> plugin" where
  "Notice n p = p\<lparr>notices := notices p @ [n]\<rparr>"

text \<open>\<^verbatim>\<open>recurse\<close> of \<^verbatim>\<open>getAllFilesInFolder\<close>: \<open>result\<close> is the array the closure
  pushes to. \<^verbatim>\<open>recurse\<close> is only ever called on a folder; \<open>recurse_children\<close> is
  the \<^verbatim>\<open>for (const child of f.children)\<close> loop.\<close>

fun recurse :: "TAbstractFile \<Rightarrow> TAbstractFile list \<Rightarrow> TAbstractFile list"
  and recurse_children :: "TAbstractFile list \<Rightarrow> TAbstractFile list \<Rightarrow> TAbstractFile list" where
  "recurse (TFolder p cs) result = recurse_children cs result"
| "recurse (TFile p) result = result"
| "recurse_children [] result = result"
| "recurse_children (TFile p # rest) result = recurse_children rest (result @ [TFile p])"
| "recurse_children (TFolder p cs # rest) result =
     recurse_children rest (recurse (TFolder p cs) result)"

definition getAllFilesInFolder :: "env \<Rightarrow> string \<Rightarrow> TAbstractFile list" where
  "getAllFilesInFolder e folderPath =
     (case getAbstractFileByPath e folderPath of
        Some (TFolder p cs) \<Rightarrow> recurse (TFolder p cs) []
      | _ \<Rightarrow> [])"

text \<open>The \<^verbatim>\<open>for (const file of allFiles)\<close> loop of \<^verbatim>\<open>syncVault\<close>; the first
  rejection leaves it.\<close>

fun uploadAll ::
  "env \<Rightarrow> string \<Rightarrow> TAbstractFile list \<Rightarrow> 'a OneDriveConfig_scheme \<Rightarrow> world \<Rightarrow>
     (js_error + unit) \<times> 'a OneDriveConfig_scheme \<times> world" where
  "uploadAll e localFolderPath [] config w = (Inr (), config, w)"
| "uploadAll e localFolderPath (file # rest) config w =
     (case readBinary e file of
        None \<Rightarrow> (Inl ReadBinaryRejected, config, w)
      | Some arrayBuf \<Rightarrow>
          let relativePath = drop (length localFolderPath + 1) (path file) in
          case uploadFile e config w relativePath arrayBuf of
            (Inl err, config', w') \<Rightarrow> (Inl err, config', w')
          | (Inr item, config', w') \<Rightarrow> uploadAll e localFolderPath rest config' w')"

definition syncVault :: "env \<Rightarrow> plugin \<Rightarrow> plugin" where
  "syncVault e p =
     (if \<not> isAuthenticated p then Notice NotAuthenticated p
      else
        let p1 = updateStatusBar ''Syncing...'' p;
            localFolderPath = localVaultFolder (settings p1)
        in case getAbstractFileByPath e localFolderPath of
             Some (TFolder fp cs) \<Rightarrow>
               (let allFiles = getAllFilesInFolder e localFolderPath in
                case uploadAll e localFolderPath allFiles (settings p1) (remote p1) of
                  (Inr u, config', w') \<Rightarrow>
                    updateStatusBar ''Idle''
                      (Notice (SyncCompleted (Number_toString (int (length allFiles))))
                         (p1\<lparr>settings := config', remote := w'\<rparr>))
                | (Inl err, config', w') \<Rightarrow>
                    Notice SyncFailed
                      (updateStatusBar ''Error''
                         (p1\<lparr>settings := config', remote := w',
                             console_error := console_error p1 @ [err]\<rparr>)))
           | _ \<Rightarrow>
               updateStatusBar ''Error: no local folder''
                 (Notice (LocalFolderMissing localFolderPath) p1))"

section \<open>Notions the properties are stated with\<close>

text \<open>The trace: which calls are chunk uploads, and what they carry.\<close>

definition is_put :: "http_call \<Rightarrow> bool" where
  "is_put c = (http_method c = ''PUT'')"

definition bytes_of :: "http_call \<Rightarrow> byte list" where
  "bytes_of c = (case body c of Bytes bs \<Rightarrow> bs | _ \<Rightarrow> [])"

definition content_range :: "http_call \<Rightarrow> string option" where
  "content_range c = map_of (headers c) ''Content-Range''"

text \<open>\<open>under x t\<close>: \<open>x\<close> lies in the tree below the folder \<open>t\<close>, at any depth.\<close>

inductive under :: "TAbstractFile \<Rightarrow> TAbstractFile \<Rightarrow> bool" where
  child: "c \<in> set cs \<Longrightarrow> under c (TFolder p cs)"
| deeper: "c \<in> set cs \<Longrightarrow> under x c \<Longrightarrow> under x (TFolder p cs)"

text \<open>Every entry below a folder, each as often as it occurs, parents before their
  children.\<close>

fun descendants :: "TAbstractFile \<Rightarrow> TAbstractFile list"
  and descendants_list :: "TAbstractFile list \<Rightarrow> TAbstractFile list" where
  "descendants (TFile p) = []"
| "descendants (TFolder p cs) = descendants_list cs"
| "descendants_list [] = []"
| "descendants_list (c # cs) = c # descendants c @ descendants_list cs"

section \<open>Example inputs\<close>

definition example_config :: OneDriveConfig where
  "example_config =
     \<lparr>clientId = ''client-id'',
      authority = ''https://login.microsoftonline.com/consumers'',
      redirectUri = ''obsidian://onedrive-auth'',
      accessToken = ''access-1'',
      refreshToken = ''refresh-1'',
      accessTokenExpiresAt = 1000,
      remoteBaseFolder = ''Notes''\<rparr>"

definition example_success :: AuthSuccessResponse where
  "example_success =
     \<lparr>token_type = ''Bearer'', expires_in = 3600, ext_expires_in = None,
      scope = ''Files.ReadWrite'', access_token = ''access-2'',
      refresh_token = None, id_token = None\<rparr>"

definition example_failure :: AuthErrorResponse where
  "example_failure =
     \<lparr>error = ''invalid_grant'', error_description = ''The refresh token has expired.'',
      error_codes = None\<rparr>"

definition example_item :: DriveItem where
  "example_item = \<lparr>item_id = Some ''item-1'', item_name = Some ''a.md'', item_size = None\<rparr>"

definition example_pending :: DriveItem where
  "example_pending = \<lparr>item_id = None, item_name = None, item_size = None\<rparr>"

definition example_root :: TAbstractFile where
  "example_root =
     TFolder ''root''
       [TFile ''root/a.md'',
        TFolder ''root/sub'' [TFile ''root/sub/b.md''],
        TFolder ''root/empty'' []]"

text \<open>A server that accepts everything: the clock stands at 500, the token endpoint
  answers with \<open>example_success\<close>, the session is created, and every chunk is accepted
  with a body that carries the item once two requests precede it in the trace.\<close>

definition example_env :: env where
  "example_env =
     \<lparr>Date_now = (\<lambda>k. 500),
      encodeURI = (\<lambda>s. s),
      request_token = (\<lambda>h c. Some (AuthSuccess example_success)),
      request_children = (\<lambda>h c. Some (JsonValue \<lparr>value' = None\<rparr>)),
      fetch_session = (\<lambda>h c. Some \<lparr>status = 200, text_body = [],
                                      json = Some (JsonValue \<lparr>uploadUrl = Some ''https://upload.example/1''\<rparr>)\<rparr>),
      fetch_chunk = (\<lambda>h c. Some \<lparr>status = 202, text_body = [],
                                    json = Some (JsonValue (if 2 \<le> length h then example_item
                                                           else example_pending))\<rparr>),
      getAbstractFileByPath = (\<lambda>p. if p = ''root'' then Some example_root else None),
      readBinary = (\<lambda>f. Some [])\<rparr>"

definition example_world :: world where
  "example_world = \<lparr>calls = [], ticks = 0\<rparr>"

definition example_plugin :: plugin where
  "example_plugin =
     \<lparr>settings = OneDriveConfig.extend example_config
                   \<lparr>localVaultFolder = ''root'', periodicSync = False, syncIntervalMinutes = 5\<rparr>,
      statusBarEl = Some ''OneDrive: Idle'',
      notices = [],
      console_error = [],
      remote = example_world\<rparr>"

text \<open>The same server, answering every chunk with status 500.\<close>

definition example_env_failing :: env where
  "example_env_failing =
     example_env\<lparr>fetch_chunk := (\<lambda>h c. Some \<lparr>status = 500, text_body = [], json = None\<rparr>)\<rparr>"

text \<open>The same server, accepting every chunk without ever naming the item.\<close>

definition example_env_pending :: env where
  "example_env_pending =
     example_env\<lparr>fetch_chunk := (\<lambda>h c. Some \<lparr>status = 202, text_body = [],
                                                    json = Some (JsonValue example_pending)\<rparr>)\<rparr>"

text \<open>The same server, accepting every chunk with a body that is not JSON, and with
  the body \<^verbatim>\<open>null\<close>.\<close>

definition example_env_not_json :: env where
  "example_env_not_json =
     example_env\<lparr>fetch_chunk := (\<lambda>h c. Some \<lparr>status = 202, text_body = [], json = None\<rparr>)\<rparr>"

definition example_env_null_chunk :: env where
  "example_env_null_chunk =
     example_env\<lparr>fetch_chunk := (\<lambda>h c. Some \<lparr>status = 202, text_body = ''null'',
                                                    json = Some JsonNull\<rparr>)\<rparr>"

text \<open>The same server, answering the listing with the body \<^verbatim>\<open>null\<close>.\<close>

definition example_env_null_listing :: env where
  "example_env_null_listing = example_env\<lparr>request_children := (\<lambda>h c. Some JsonNull)\<rparr>"

text \<open>The same server, refusing the refresh token.\<close>

definition example_env_denied :: env where
  "example_env_denied =
     example_env\<lparr>request_token := (\<lambda>h c. Some (AuthError example_failure))\<rparr>"

text \<open>A vault with nothing at any path, and one where the path is a file.\<close>

definition example_env_no_folder :: env where
  "example_env_no_folder = example_env\<lparr>getAbstractFileByPath := (\<lambda>p. None)\<rparr>"

definition example_env_file_root :: env where
  "example_env_file_root = example_env\<lparr>getAbstractFileByPath := (\<lambda>p. Some (TFile p))\<rparr>"

text \<open>A vault whose folder at any path holds an empty folder and no file.\<close>

definition example_env_empty_folder :: env where
  "example_env_empty_folder =
     example_env\<lparr>getAbstractFileByPath := (\<lambda>p. Some (TFolder p [TFolder ''root/empty'' []]))\<rparr>"

text \<open>\<open>example_config\<close> with the access token expired at the example clock.\<close>

definition example_expired :: OneDriveConfig where
  "example_expired = example_config\<lparr>accessTokenExpiresAt := 100\<rparr>"

definition example_fullConfig :: OnedriveFullConfig where
  "example_fullConfig =
     \<lparr>accessToken' = ''access-1'', clientID = ''client-id'',
      authority' = ''https://login.microsoftonline.com/consumers'',
      refreshToken' = ''refresh-1'', accessTokenExpiresInSeconds = 3600,
      accessTokenExpiresAtTime = 100, deltaLink = [], username = [],
      credentialsShouldBeDeletedAtTime = 0, emptyFile = EmptySkip, remoteBaseDir = None\<rparr>"

section \<open>Properties of the upload loop\<close>

declare uploadChunks.simps [simp del]
declare nat_toString.simps [simp del]

lemma calls_issue [simp]: "calls (issue c w) = calls w @ [c]"
  by (simp add: issue_def)

lemma ticks_issue [simp]: "ticks (issue c w) = ticks w"
  by (simp add: issue_def)

lemma ceil_less_iff: "0 < c \<Longrightarrow> j < (s + c - 1) div c \<longleftrightarrow> j * c < (s::nat)"
proof -
  assume c: "0 < c"
  have "j < (s + c - 1) div c \<longleftrightarrow> Suc j \<le> (s + c - 1) div c" by auto
  also have "\<dots> \<longleftrightarrow> Suc j * c \<le> s + c - 1"
    using c by (simp add: less_eq_div_iff_mult_less_eq)
  also have "\<dots> \<longleftrightarrow> j * c < s" using c by auto
  finally show ?thesis .
qed

text \<open>One turn of the loop, by the reply to its request.\<close>

lemma uploadChunks_done:
  "\<not> offset < length content \<Longrightarrow> uploadChunks e u content offset fi w = (Inr fi, w)"
  by (subst uploadChunks.simps) simp

lemma uploadChunks_rejected:
  "offset < length content \<Longrightarrow>
   fetch_chunk e (calls w) (chunk_call u content offset (min (offset + CHUNK_SIZE) (length content))) = None \<Longrightarrow>
   uploadChunks e u content offset fi w =
     (Inl RequestRejected, issue (chunk_call u content offset (min (offset + CHUNK_SIZE) (length content))) w)"
  by (subst uploadChunks.simps) (simp add: Let_def)

lemma uploadChunks_not_ok:
  "offset < length content \<Longrightarrow>
   fetch_chunk e (calls w) (chunk_call u content offset (min (offset + CHUNK_SIZE) (length content))) = Some resp \<Longrightarrow>
   \<not> ok resp \<Longrightarrow>
   uploadChunks e u content offset fi w =
     (Inl (ChunkError (status resp)), issue (chunk_call u content offset (min (offset + CHUNK_SIZE) (length content))) w)"
  by (subst uploadChunks.simps) (simp add: Let_def)

lemma uploadChunks_not_json:
  "offset < length content \<Longrightarrow>
   fetch_chunk e (calls w) (chunk_call u content offset (min (offset + CHUNK_SIZE) (length content))) = Some resp \<Longrightarrow>
   ok resp \<Longrightarrow> json resp = None \<Longrightarrow>
   uploadChunks e u content offset fi w =
     (Inl BodyNotJson, issue (chunk_call u content offset (min (offset + CHUNK_SIZE) (length content))) w)"
  by (subst uploadChunks.simps) (simp add: Let_def)

lemma uploadChunks_null:
  "offset < length content \<Longrightarrow>
   fetch_chunk e (calls w) (chunk_call u content offset (min (offset + CHUNK_SIZE) (length content))) = Some resp \<Longrightarrow>
   ok resp \<Longrightarrow> json resp = Some JsonNull \<Longrightarrow>
   uploadChunks e u content offset fi w =
     (Inl TypeError, issue (chunk_call u content offset (min (offset + CHUNK_SIZE) (length content))) w)"
  by (subst uploadChunks.simps) (simp add: Let_def)

lemma uploadChunks_next:
  "offset < length content \<Longrightarrow>
   fetch_chunk e (calls w) (chunk_call u content offset (min (offset + CHUNK_SIZE) (length content))) = Some resp \<Longrightarrow>
   ok resp \<Longrightarrow> json resp = Some (JsonValue rjson) \<Longrightarrow>
   uploadChunks e u content offset fi w =
     uploadChunks e u content (min (offset + CHUNK_SIZE) (length content))
       (if truthy_opt (item_id rjson) then Some rjson else fi)
       (issue (chunk_call u content offset (min (offset + CHUNK_SIZE) (length content))) w)"
  by (subst uploadChunks.simps) (simp add: Let_def)

lemmas uploadChunks_turn =
  uploadChunks_done uploadChunks_rejected uploadChunks_not_ok uploadChunks_not_json
  uploadChunks_null uploadChunks_next

text \<open>The requests of a loop that ran to its end.\<close>

lemma uploadChunks_calls:
  "fst (uploadChunks e u content offset fi w) = Inr x \<Longrightarrow>
   offset = min (j * CHUNK_SIZE) (length content) \<Longrightarrow>
   calls (snd (uploadChunks e u content offset fi w)) =
     calls w @ map (\<lambda>k. chunk_call u content (k * CHUNK_SIZE) (min ((k + 1) * CHUNK_SIZE) (length content)))
                 [j ..< (length content + CHUNK_SIZE - 1) div CHUNK_SIZE]"
proof (induction e u content offset fi w arbitrary: j rule: uploadChunks.induct)
  case (1 e u content offset fi w)
  let ?N = "(length content + CHUNK_SIZE - 1) div CHUNK_SIZE"
  have pos: "0 < CHUNK_SIZE" by (simp add: CHUNK_SIZE_def)
  show ?case
  proof (cases "offset < length content")
    case False
    with "1.prems" have "\<not> j * CHUNK_SIZE < length content" by auto
    then have "\<not> j < ?N" using ceil_less_iff [OF pos] by simp
    with False show ?thesis by (simp add: uploadChunks_done)
  next
    case True
    with "1.prems" have off: "offset = j * CHUNK_SIZE" and lt: "j * CHUNK_SIZE < length content"
      by auto
    then have jN: "j < ?N" using ceil_less_iff [OF pos] by simp
    let ?end = "min (offset + CHUNK_SIZE) (length content)"
    let ?c = "chunk_call u content offset ?end"
    have end_eq: "?end = min (Suc j * CHUNK_SIZE) (length content)"
      using off by (simp add: add.commute)
    from "1.prems"(1) True obtain resp rjson where
      r: "fetch_chunk e (calls w) ?c = Some resp" "ok resp" "json resp = Some (JsonValue rjson)"
      by (cases "fetch_chunk e (calls w) ?c"; cases "ok (the (fetch_chunk e (calls w) ?c))";
          cases "json (the (fetch_chunk e (calls w) ?c))";
          cases "the (json (the (fetch_chunk e (calls w) ?c)))")
         (auto simp: uploadChunks_rejected uploadChunks_not_ok uploadChunks_not_json
            uploadChunks_null)
    let ?fi = "if truthy_opt (item_id rjson) then Some rjson else fi"
    have step: "uploadChunks e u content offset fi w = uploadChunks e u content ?end ?fi (issue ?c w)"
      using True r by (rule uploadChunks_next)
    have "calls (snd (uploadChunks e u content ?end ?fi (issue ?c w))) =
            calls (issue ?c w) @ map (\<lambda>k. chunk_call u content (k * CHUNK_SIZE) (min ((k + 1) * CHUNK_SIZE) (length content)))
                 [Suc j ..< ?N]"
      using "1.IH" [OF True refl refl r(1) _ r(3) refl _ end_eq] r(2) "1.prems"(1) step by simp
    then show ?thesis
      using step jN off by (simp add: upt_conv_Cons add.commute)
  qed
qed

lemma uploadChunks_cases [case_names finished rejected not_ok not_json null_body continue]:
  fixes e :: env
  obtains
    (finished) "\<not> offset < length content"
  | (rejected) "offset < length content"
      "fetch_chunk e (calls w) (chunk_call u content offset (min (offset + CHUNK_SIZE) (length content))) = None"
  | (not_ok) resp where "offset < length content"
      "fetch_chunk e (calls w) (chunk_call u content offset (min (offset + CHUNK_SIZE) (length content))) = Some resp"
      "\<not> ok resp"
  | (not_json) resp where "offset < length content"
      "fetch_chunk e (calls w) (chunk_call u content offset (min (offset + CHUNK_SIZE) (length content))) = Some resp"
      "ok resp" "json resp = None"
  | (null_body) resp where "offset < length content"
      "fetch_chunk e (calls w) (chunk_call u content offset (min (offset + CHUNK_SIZE) (length content))) = Some resp"
      "ok resp" "json resp = Some JsonNull"
  | (continue) resp rjson where "offset < length content"
      "fetch_chunk e (calls w) (chunk_call u content offset (min (offset + CHUNK_SIZE) (length content))) = Some resp"
      "ok resp" "json resp = Some (JsonValue rjson)"
proof (cases "offset < length content")
  case False
  then show ?thesis by (rule finished)
next
  case lt: True
  let ?c = "chunk_call u content offset (min (offset + CHUNK_SIZE) (length content))"
  show ?thesis
  proof (cases "fetch_chunk e (calls w) ?c")
    case None
    with lt show ?thesis by (rule rejected)
  next
    case (Some resp)
    show ?thesis
    proof (cases "ok resp")
      case False
      with lt Some show ?thesis by (rule not_ok)
    next
      case True
      show ?thesis
      proof (cases "json resp")
        case None
        with lt Some True show ?thesis by (rule not_json)
      next
        case parsed: (Some v)
        show ?thesis
        proof (cases v)
          case JsonNull
          with parsed have "json resp = Some JsonNull" by simp
          with lt Some True show ?thesis by (rule null_body)
        next
          case (JsonValue rjson)
          with parsed have "json resp = Some (JsonValue rjson)" by simp
          with lt Some True show ?thesis by (rule continue)
        qed
      qed
    qed
  qed
qed

text \<open>The loop only appends \<^verbatim>\<open>PUT\<close> requests to the trace and never reads the clock.\<close>

lemma uploadChunks_world:
  "\<exists>new. calls (snd (uploadChunks e u content offset fi w)) = calls w @ new
     \<and> filter (\<lambda>c. http_method c = ''PUT'') new = new
     \<and> ticks (snd (uploadChunks e u content offset fi w)) = ticks w"
proof (induction e u content offset fi w rule: uploadChunks.induct)
  case (1 e u content offset fi w)
  show ?case
  proof (cases rule: uploadChunks_cases [where offset = offset and content = content and e = e and w = w and u = u])
    case (continue resp rjson)
    let ?c = "chunk_call u content offset (min (offset + CHUNK_SIZE) (length content))"
    let ?fi = "if truthy_opt (item_id rjson) then Some rjson else fi"
    let ?r = "uploadChunks e u content (min (offset + CHUNK_SIZE) (length content)) ?fi (issue ?c w)"
    from "1.IH" [OF continue(1) refl refl continue(2) _ continue(4) refl] continue(3)
    obtain new where new: "calls (snd ?r) = calls (issue ?c w) @ new"
      "filter (\<lambda>c. http_method c = ''PUT'') new = new" "ticks (snd ?r) = ticks (issue ?c w)"
      by auto
    have "calls (snd ?r) = calls w @ (?c # new)" using new(1) by simp
    moreover have "filter (\<lambda>c. http_method c = ''PUT'') (?c # new) = ?c # new"
      using new(2) by (simp add: chunk_call_def)
    ultimately show ?thesis
      using new(3) uploadChunks_next [OF continue, of fi] by (metis ticks_issue)
  qed (auto simp: uploadChunks_turn chunk_call_def)
qed


lemma uploadChunks_bodies:
  "fst (uploadChunks e u content offset fi w) = Inr x \<Longrightarrow>
   concat (map bytes_of (drop (length (calls w)) (calls (snd (uploadChunks e u content offset fi w)))))
     = drop offset content"
proof (induction e u content offset fi w rule: uploadChunks.induct)
  case (1 e u content offset fi w)
  show ?case
  proof (cases rule: uploadChunks_cases [where offset = offset and content = content and e = e and w = w and u = u])
    case (continue resp rjson)
    let ?end = "min (offset + CHUNK_SIZE) (length content)"
    let ?c = "chunk_call u content offset ?end"
    let ?fi = "if truthy_opt (item_id rjson) then Some rjson else fi"
    let ?r = "uploadChunks e u content ?end ?fi (issue ?c w)"
    have step: "uploadChunks e u content offset fi w = ?r"
      using continue by (rule uploadChunks_next)
    obtain new where new: "calls (snd ?r) = calls (issue ?c w) @ new"
      using uploadChunks_world by blast
    have "concat (map bytes_of (drop (length (calls (issue ?c w))) (calls (snd ?r)))) = drop ?end content"
      using "1.IH" [OF continue(1) refl refl continue(2) _ continue(4) refl] continue(3) "1.prems" step by simp
    then have rest: "concat (map bytes_of new) = drop ?end content"
      using new by simp
    have "bytes_of ?c = take (?end - offset) (drop offset content)"
      by (simp add: bytes_of_def chunk_call_def subarray_def)
    moreover have "drop ?end content = drop (?end - offset) (drop offset content)"
      using continue(1) by simp
    ultimately have "bytes_of ?c @ concat (map bytes_of new) = drop offset content"
      using rest by (metis append_take_drop_id)
    then show ?thesis using step new by simp
  qed (use "1.prems" in \<open>auto simp: uploadChunks_turn\<close>)
qed

text \<open>A loop that throws does so on the reply to its last request.\<close>

lemma uploadChunks_Inl:
  "fst (uploadChunks e u content offset fi w) = Inl err \<Longrightarrow>
   err \<noteq> NoFinalDriveItem
   \<and> length (calls w) < length (calls (snd (uploadChunks e u content offset fi w)))
   \<and> (\<nexists>resp rjson.
         fetch_chunk e (butlast (calls (snd (uploadChunks e u content offset fi w))))
                       (last (calls (snd (uploadChunks e u content offset fi w)))) = Some resp
         \<and> ok resp \<and> json resp = Some (JsonValue rjson))"
proof (induction e u content offset fi w rule: uploadChunks.induct)
  case (1 e u content offset fi w)
  show ?case
  proof (cases rule: uploadChunks_cases [where offset = offset and content = content and e = e and w = w and u = u])
    case (continue resp rjson)
    let ?end = "min (offset + CHUNK_SIZE) (length content)"
    let ?c = "chunk_call u content offset ?end"
    let ?fi = "if truthy_opt (item_id rjson) then Some rjson else fi"
    let ?r = "uploadChunks e u content ?end ?fi (issue ?c w)"
    have step: "uploadChunks e u content offset fi w = ?r"
      using continue by (rule uploadChunks_next)
    show ?thesis
      using "1.IH" [OF continue(1) refl refl continue(2) _ continue(4) refl] continue(3) "1.prems" step by simp
  qed (use "1.prems" in \<open>auto simp: uploadChunks_turn\<close>)
qed

text \<open>The item a loop ends with is the one it started with or the body of a reply.\<close>

lemma uploadChunks_Some:
  "fst (uploadChunks e u content offset fi w) = Inr (Some item) \<Longrightarrow>
   fi = Some item \<or>
   (\<exists>k resp. length (calls w) \<le> k \<and> k < length (calls (snd (uploadChunks e u content offset fi w)))
      \<and> fetch_chunk e (take k (calls (snd (uploadChunks e u content offset fi w))))
                       (calls (snd (uploadChunks e u content offset fi w)) ! k) = Some resp
      \<and> ok resp \<and> json resp = Some (JsonValue item) \<and> truthy_opt (item_id item))"
proof (induction e u content offset fi w rule: uploadChunks.induct)
  case (1 e u content offset fi w)
  show ?case
  proof (cases rule: uploadChunks_cases [where offset = offset and content = content and e = e and w = w and u = u])
    case (continue resp rjson)
    let ?end = "min (offset + CHUNK_SIZE) (length content)"
    let ?c = "chunk_call u content offset ?end"
    let ?fi = "if truthy_opt (item_id rjson) then Some rjson else fi"
    let ?r = "uploadChunks e u content ?end ?fi (issue ?c w)"
    have step: "uploadChunks e u content offset fi w = ?r"
      using continue by (rule uploadChunks_next)
    obtain new where new: "calls (snd ?r) = calls w @ ?c # new"
      using uploadChunks_world [of e u content ?end ?fi "issue ?c w"] by auto
    from "1.IH" [OF continue(1) refl refl continue(2) _ continue(4) refl] continue(3) "1.prems" step
    consider (old) "?fi = Some item"
      | (later) k resp' where "length (calls (issue ?c w)) \<le> k" "k < length (calls (snd ?r))"
          "fetch_chunk e (take k (calls (snd ?r))) (calls (snd ?r) ! k) = Some resp'"
          "ok resp'" "json resp' = Some (JsonValue item)" "truthy_opt (item_id item)"
      by auto
    then show ?thesis
    proof cases
      case old
      show ?thesis
      proof (cases "truthy_opt (item_id rjson)")
        case True
        with old have "rjson = item" by simp
        with True continue new have
          "length (calls w) < length (calls (snd ?r))"
          "fetch_chunk e (take (length (calls w)) (calls (snd ?r))) (calls (snd ?r) ! length (calls w)) = Some resp"
          "ok resp" "json resp = Some (JsonValue item)" "truthy_opt (item_id item)"
          by simp_all
        then show ?thesis unfolding step by blast
      next
        case False
        with old show ?thesis by simp
      qed
    next
      case later
      then have "length (calls w) \<le> k" by simp
      with later show ?thesis unfolding step by blast
    qed
  qed (use "1.prems" in \<open>auto simp: uploadChunks_turn\<close>)
qed


text \<open>The requests of any run of the loop are the first chunks, in order.\<close>

lemma uploadChunks_calls_prefix:
  "offset = min (j * CHUNK_SIZE) (length content) \<Longrightarrow>
   \<exists>n. n \<le> (length content + CHUNK_SIZE - 1) div CHUNK_SIZE - j
     \<and> calls (snd (uploadChunks e u content offset fi w)) =
         calls w @ map (\<lambda>k. chunk_call u content (k * CHUNK_SIZE) (min ((k + 1) * CHUNK_SIZE) (length content)))
                     [j ..< j + n]"
proof (induction e u content offset fi w arbitrary: j rule: uploadChunks.induct)
  case (1 e u content offset fi w)
  let ?N = "(length content + CHUNK_SIZE - 1) div CHUNK_SIZE"
  let ?chunk = "\<lambda>k. chunk_call u content (k * CHUNK_SIZE) (min ((k + 1) * CHUNK_SIZE) (length content))"
  let ?end = "min (offset + CHUNK_SIZE) (length content)"
  let ?c = "chunk_call u content offset ?end"
  have pos: "0 < CHUNK_SIZE" by (simp add: CHUNK_SIZE_def)
  have first: "offset = j * CHUNK_SIZE" "j < ?N" "?c = ?chunk j"
    "?end = min (Suc j * CHUNK_SIZE) (length content)"
    if lt: "offset < length content"
  proof -
    from lt "1.prems" have off: "offset = j * CHUNK_SIZE" and "j * CHUNK_SIZE < length content"
      by auto
    then show "j < ?N" using ceil_less_iff [OF pos] by simp
    from off show "offset = j * CHUNK_SIZE" .
    from off show "?c = ?chunk j" "?end = min (Suc j * CHUNK_SIZE) (length content)"
      by (simp_all add: add.commute)
  qed
  have one: "\<exists>n. n \<le> ?N - j \<and> calls w @ [?c] = calls w @ map ?chunk [j ..< j + n]"
    if lt: "offset < length content"
  proof -
    from first(2) [OF lt] have "1 \<le> ?N - j"
      by linarith
    moreover from first(3) [OF lt] have "[?c] = map ?chunk [j ..< j + 1]"
      by simp
    ultimately show ?thesis by (intro exI [of _ 1]) simp
  qed
  show ?case
  proof (cases rule: uploadChunks_cases [where offset = offset and content = content and e = e and w = w and u = u])
    case finished
    then show ?thesis by (intro exI [of _ 0]) (simp add: uploadChunks_done)
  next
    case rejected
    then show ?thesis using one by (simp add: uploadChunks_rejected)
  next
    case (not_ok resp)
    then show ?thesis using one by (simp add: uploadChunks_not_ok)
  next
    case (not_json resp)
    then show ?thesis using one by (simp add: uploadChunks_not_json)
  next
    case (null_body resp)
    then show ?thesis using one by (simp add: uploadChunks_null)
  next
    case (continue resp rjson)
    let ?fi = "if truthy_opt (item_id rjson) then Some rjson else fi"
    let ?r = "uploadChunks e u content ?end ?fi (issue ?c w)"
    have step: "uploadChunks e u content offset fi w = ?r"
      using continue by (rule uploadChunks_next)
    note f = first [OF continue(1)]
    from "1.IH" [OF continue(1) refl refl continue(2) _ continue(4) refl, of "Suc j"] continue(3) f(4)
    obtain n where n: "n \<le> ?N - Suc j"
      "calls (snd ?r) = calls (issue ?c w) @ map ?chunk [Suc j ..< Suc j + n]"
      by auto
    have "Suc n \<le> ?N - j" using n(1) f(2) by linarith
    moreover have "[j ..< j + Suc n] = j # [Suc j ..< Suc j + n]"
      by (simp add: upt_conv_Cons del: upt_Suc)
    then have "calls (snd ?r) = calls w @ map ?chunk [j ..< j + Suc n]"
      using n(2) f(3) by (simp del: upt_Suc)
    ultimately show ?thesis unfolding step by blast
  qed
qed

lemma getAccessToken_calls:
  "\<exists>new. calls (snd (snd (getAccessToken e config w))) = calls w @ new \<and> filter is_put new = []"
  by (auto simp: getAccessToken_def refreshAccessToken_def now_def issue_def Let_def
        refresh_call_def is_put_def
      split: option.splits token_result.splits prod.splits sum.splits)

lemma uploadChunks_puts:
  "\<exists>new. calls (snd (uploadChunks e u content offset fi w)) = calls w @ new \<and> filter is_put new = new"
  using uploadChunks_world [of e u content offset fi w] unfolding is_put_def by blast

lemma uploadFile_cases [case_names early loop]:
  fixes e :: env and config :: "'a OneDriveConfig_scheme"
  obtains
    (early) err where
      "fst (uploadFile e config w0 relativePath content) = Inl err" "err \<noteq> NoFinalDriveItem"
      "filter is_put (drop (length (calls w0)) (calls (snd (snd (uploadFile e config w0 relativePath content))))) = []"
  | (loop) token config1 w1 sessionResp sessionData where
      "getAccessToken e config w0 = (Inr token, config1, w1)"
      "fetch_session e (calls w1) (session_call e config1 token relativePath) = Some sessionResp"
      "ok sessionResp" "json sessionResp = Some (JsonValue sessionData)" "truthy_opt (uploadUrl sessionData)"
      "uploadFile e config w0 relativePath content =
         (case uploadChunks e (the (uploadUrl sessionData)) content 0 None
                 (issue (session_call e config1 token relativePath) w1) of
            (Inl err, w3) \<Rightarrow> (Inl err, config1, w3)
          | (Inr None, w3) \<Rightarrow> (Inl NoFinalDriveItem, config1, w3)
          | (Inr (Some finalItem), w3) \<Rightarrow> (Inr finalItem, config1, w3))"
proof -
  obtain r config1 w1 where tok: "getAccessToken e config w0 = (r, config1, w1)"
    by (cases "getAccessToken e config w0") auto
  obtain new where new: "calls w1 = calls w0 @ new" "filter is_put new = []"
    using getAccessToken_calls [of e config w0] tok by auto
  have nput: "\<not> is_put (session_call e config1 t relativePath)" for t
    by (simp add: is_put_def session_call_def Let_def)
  have tokerr: "err \<noteq> NoFinalDriveItem" if "r = Inl err" for err
    using tok that
    by (auto simp: getAccessToken_def refreshAccessToken_def Let_def
             split: option.splits token_result.splits prod.splits sum.splits if_splits)
  show thesis
  proof (cases r)
    case (Inl err)
    with tok new tokerr show ?thesis
      by (intro early [of err]) (simp_all add: uploadFile_def)
  next
    case (Inr token)
    let ?c = "session_call e config1 token relativePath"
    show ?thesis
    proof (cases "fetch_session e (calls w1) ?c")
      case None
      with tok Inr new nput show ?thesis
        by (intro early [of RequestRejected]) (simp_all add: uploadFile_def Let_def)
    next
      case (Some sessionResp)
      show ?thesis
      proof (cases "ok sessionResp")
        case False
        with tok Inr new nput Some show ?thesis
          by (intro early [of "CreateUploadSessionError (status sessionResp) (text_body sessionResp)"])
             (simp_all add: uploadFile_def Let_def)
      next
        case True
        show ?thesis
        proof (cases "json sessionResp")
          case None
          with tok Inr new nput Some True show ?thesis
            by (intro early [of BodyNotJson]) (simp_all add: uploadFile_def Let_def)
        next
          case (Some parsed)
          note fetched = \<open>fetch_session e (calls w1) ?c = Some sessionResp\<close>
          show ?thesis
          proof (cases parsed)
            case JsonNull
            with tok Inr new nput fetched True Some show ?thesis
              by (intro early [of TypeError]) (simp_all add: uploadFile_def Let_def)
          next
            case (JsonValue sessionData)
            show ?thesis
            proof (cases "truthy_opt (uploadUrl sessionData)")
              case False
              with tok Inr new nput fetched True Some JsonValue show ?thesis
                by (intro early [of NoUploadUrl]) (simp_all add: uploadFile_def Let_def)
            next
              case url: True
              with tok Inr fetched True Some JsonValue show ?thesis
                by (intro loop [of token config1 w1 sessionResp sessionData])
                   (simp_all add: uploadFile_def Let_def)
            qed
          qed
        qed
      qed
    qed
  qed
qed

lemma filter_put_nth:
  "filter is_put (drop n xs) = [] \<Longrightarrow> n \<le> k \<Longrightarrow> k < length xs \<Longrightarrow> \<not> is_put (xs ! k)"
proof -
  assume a: "filter is_put (drop n xs) = []" "n \<le> k" "k < length xs"
  have "drop n xs ! (k - n) = xs ! k" using a(2,3) by simp
  moreover have "k - n < length (drop n xs)" using a(2,3) by simp
  ultimately have "xs ! k \<in> set (drop n xs)" by (metis nth_mem)
  with a(1) show ?thesis by (simp add: filter_empty_conv)
qed


subsection \<open>The vault tree\<close>

lemma recurse_filter:
  "recurse t result = result @ filter is_TFile (descendants t)"
  "recurse_children cs result = result @ filter is_TFile (descendants_list cs)"
  by (induction t result and cs result rule: recurse_recurse_children.induct) simp_all

lemma under_TFile [simp]: "\<not> under x (TFile p)"
  by (auto elim: under.cases)

lemma set_descendants:
  "set (descendants t) = {x. under x t}"
  "set (descendants_list cs) = {x. x \<in> set cs \<or> (\<exists>c \<in> set cs. under x c)}"
proof (induction t and cs rule: descendants_descendants_list.induct)
  case (2 p cs)
  show ?case
    unfolding descendants.simps 2
    by (auto intro: under.intros elim: under.cases)
qed auto

lemma getAllFilesInFolder_folder:
  "getAbstractFileByPath e folderPath = Some (TFolder p cs) \<Longrightarrow>
   getAllFilesInFolder e folderPath = filter is_TFile (descendants (TFolder p cs))"
  by (simp add: getAllFilesInFolder_def recurse_filter del: descendants.simps recurse.simps)

lemma getAllFilesInFolder_no_folder:
  "\<nexists>p cs. getAbstractFileByPath e folderPath = Some (TFolder p cs) \<Longrightarrow>
   getAllFilesInFolder e folderPath = []"
proof (cases "getAbstractFileByPath e folderPath")
  case None
  then show ?thesis by (simp add: getAllFilesInFolder_def)
next
  case (Some f)
  assume "\<nexists>p cs. getAbstractFileByPath e folderPath = Some (TFolder p cs)"
  with Some obtain p where "f = TFile p" by (cases f) auto
  with Some show ?thesis by (simp add: getAllFilesInFolder_def)
qed

lemma settings_updateStatusBar [simp]: "settings (updateStatusBar st pl) = settings pl"
  by (simp add: updateStatusBar_def split: option.splits)

lemma syncVault_no_folder:
  assumes "isAuthenticated pl
           \<and> (\<nexists>p cs. getAbstractFileByPath e (localVaultFolder (settings pl)) = Some (TFolder p cs))"
  shows "syncVault e pl =
           updateStatusBar ''Error: no local folder''
             (Notice (LocalFolderMissing (localVaultFolder (settings pl)))
                (updateStatusBar ''Syncing...'' pl))"
proof (cases "getAbstractFileByPath e (localVaultFolder (settings pl))")
  case None
  with assms show ?thesis by (simp add: syncVault_def Let_def)
next
  case (Some f)
  with assms obtain p where "f = TFile p" by (cases f) auto
  with Some assms show ?thesis by (simp add: syncVault_def Let_def)
qed

subsection \<open>Evaluating the examples\<close>

lemmas example_defs =
  example_env_def example_config_def example_world_def example_item_def example_pending_def
  example_success_def example_failure_def example_env_failing_def example_env_pending_def
  example_env_denied_def example_env_no_folder_def example_env_file_root_def
  example_env_not_json_def example_env_null_chunk_def example_env_null_listing_def
  example_env_empty_folder_def
  example_expired_def example_root_def example_plugin_def example_fullConfig_def

lemmas run_defs =
  uploadFile_def getAccessToken_def refreshAccessToken_def now_def issue_def Let_def
  truthy_def truthy_opt_def ok_def session_call_def refresh_call_def
  uploadChunks.simps CHUNK_SIZE_def chunk_call_def subarray_def

lemmas text_defs = Number_toString_def nat_toString.simps digit_char_def

section \<open>The claims\<close>

text \<open>
  C1 (as amended). For a buffer of size \<open>S > 0\<close> and \<open>C = CHUNK_SIZE\<close>, the
  \<^verbatim>\<open>PUT\<close> requests of a run of \<^verbatim>\<open>uploadFile\<close> are, in this order, the first \<open>n\<close>
  of the \<open>ceil(S/C)\<close> chunk requests: the \<open>k\<close>-th (\<open>k = 0, 1, ...\<close>) goes to the
  upload URL with the header \<^verbatim>\<open>Content-Range: bytes {k*C}-{min((k+1)*C, S) - 1}/{S}\<close> and
  the bytes of that range as its body. When no request of the run fails (it returns the
  item, or throws only because no reply carried one), \<open>n\<close> is \<open>ceil(S/C)\<close>, at least
  one, and the bodies, one after the other, are the buffer: the ranges cover \<open>[0, S)\<close>
  with no gap and no overlap. The last range then starts at \<open>(ceil(S/C) - 1) * C\<close>,
  which is \<open>floor(S/C) * C\<close> only when \<open>C\<close> does not divide \<open>S\<close>.
\<close>

theorem uploadFile_chunk_requests:
  fixes e :: env and config :: "'a OneDriveConfig_scheme"
  assumes size: "0 < length content"
  shows "\<exists>upload_url n.
           n \<le> (length content + CHUNK_SIZE - 1) div CHUNK_SIZE
         \<and> filter is_put (drop (length (calls w)) (calls (snd (snd (uploadFile e config w relativePath content)))))
             = map (\<lambda>k. \<lparr>url = upload_url, http_method = ''PUT'', contentType = None,
                          headers = [(''Content-Type'', ''application/octet-stream''),
                                     (''Content-Range'',
                                        ''bytes '' @ Number_toString (int (k * CHUNK_SIZE)) @ ''-''
                                        @ Number_toString (int (min ((k + 1) * CHUNK_SIZE) (length content)) - 1)
                                        @ ''/'' @ Number_toString (int (length content)))],
                          body = Bytes (take (min ((k + 1) * CHUNK_SIZE) (length content) - k * CHUNK_SIZE)
                                          (drop (k * CHUNK_SIZE) content))\<rparr>)
                   [0 ..< n]
         \<and> (fst (uploadFile e config w relativePath content) = Inl NoFinalDriveItem
              \<or> (\<exists>item. fst (uploadFile e config w relativePath content) = Inr item) \<longrightarrow>
            n = (length content + CHUNK_SIZE - 1) div CHUNK_SIZE
            \<and> 0 < n
            \<and> concat (map bytes_of
                 (filter is_put (drop (length (calls w)) (calls (snd (snd (uploadFile e config w relativePath content)))))))
                = content)"
proof (cases rule: uploadFile_cases [where e = e and config = config and ?w0.0 = w
         and relativePath = relativePath and content = content])
  case (early err)
  then show ?thesis by (intro exI [of _ "[]"] exI [of _ 0]) auto
next
  case (loop token config1 w1 sessionResp sessionData)
  let ?u = "the (uploadUrl sessionData)"
  let ?sc = "session_call e config1 token relativePath"
  let ?r = "uploadChunks e ?u content 0 None (issue ?sc w1)"
  let ?N = "(length content + CHUNK_SIZE - 1) div CHUNK_SIZE"
  let ?chunk = "\<lambda>k. chunk_call ?u content (k * CHUNK_SIZE) (min ((k + 1) * CHUNK_SIZE) (length content))"
  let ?ran = "fst (uploadFile e config w relativePath content) = Inl NoFinalDriveItem
              \<or> (\<exists>item. fst (uploadFile e config w relativePath content) = Inr item)"
  obtain rr w3 where r: "?r = (rr, w3)" by (cases ?r) auto
  have w': "snd (snd (uploadFile e config w relativePath content)) = w3"
    using loop(6) r by (auto split: sum.splits option.splits)
  obtain new where new: "calls w1 = calls w @ new" "filter is_put new = []"
    using getAccessToken_calls [of e config w] loop(1) by auto
  have nput: "\<not> is_put ?sc"
    by (simp add: is_put_def session_call_def Let_def)
  have puts: "filter is_put (map ?chunk ks) = map ?chunk ks" for ks
    by (induction ks) (simp_all add: is_put_def chunk_call_def)
  obtain n where n: "n \<le> ?N" "calls w3 = calls (issue ?sc w1) @ map ?chunk [0 ..< n]"
    using uploadChunks_calls_prefix [of 0 0 content e ?u None "issue ?sc w1"] r by auto
  have run: "filter is_put (drop (length (calls w)) (calls w3)) = map ?chunk [0 ..< n]"
    using n(2) new nput puts by simp
  have all: "n = ?N \<and> 0 < n
             \<and> concat (map bytes_of (filter is_put (drop (length (calls w)) (calls w3)))) = content"
    if ran: ?ran
  proof -
    have "rr \<noteq> Inl NoFinalDriveItem"
      using uploadChunks_Inl [of e ?u content 0 None "issue ?sc w1" NoFinalDriveItem] r by auto
    then obtain x where x: "rr = Inr x"
      using ran loop(6) r by (cases rr) (auto split: option.splits)
    have "calls w3 = calls (issue ?sc w1) @ map ?chunk [0 ..< ?N]"
      using uploadChunks_calls [of e ?u content 0 None "issue ?sc w1" x 0] r x by simp
    with n(2) have "map ?chunk [0 ..< n] = map ?chunk [0 ..< ?N]" by simp
    then have "length (map ?chunk [0 ..< n]) = length (map ?chunk [0 ..< ?N])" by (rule arg_cong)
    then have nN: "n = ?N" by simp
    have "concat (map bytes_of (drop (length (calls (issue ?sc w1))) (calls w3))) = drop 0 content"
      using uploadChunks_bodies [of e ?u content 0 None "issue ?sc w1" x] r x by simp
    then have "concat (map bytes_of (map ?chunk [0 ..< n])) = content"
      using n(2) by simp
    then have bodies: "concat (map bytes_of (filter is_put (drop (length (calls w)) (calls w3)))) = content"
      by (simp only: run)
    have "0 < ?N"
      using ceil_less_iff [of CHUNK_SIZE 0 "length content"] size by (simp add: CHUNK_SIZE_def)
    with nN bodies show ?thesis by simp
  qed
  have main:
    "n \<le> ?N
     \<and> filter is_put (drop (length (calls w)) (calls (snd (snd (uploadFile e config w relativePath content)))))
         = map ?chunk [0 ..< n]
     \<and> (?ran \<longrightarrow>
          n = ?N \<and> 0 < n
          \<and> concat (map bytes_of
               (filter is_put (drop (length (calls w)) (calls (snd (snd (uploadFile e config w relativePath content)))))))
              = content)"
    unfolding w' using n(1) run all by blast
  show ?thesis
    apply (rule exI [of _ ?u])
    apply (rule exI [of _ n])
    apply (rule main [unfolded chunk_call_def subarray_def])
    done
qed

theorem uploadFile_chunk_requests_witness:
  "0 < length (replicate 12582912 (0::byte))
   \<and> fst (uploadFile example_env example_config example_world ''a.md'' (replicate 12582912 0)) = Inr example_item
   \<and> map content_range
        (filter is_put (drop (length (calls example_world))
           (calls (snd (snd (uploadFile example_env example_config example_world ''a.md'' (replicate 12582912 0)))))))
      = [Some ''bytes 0-5242879/12582912'',
         Some ''bytes 5242880-10485759/12582912'',
         Some ''bytes 10485760-12582911/12582912'']"
proof -
  let ?content = "replicate 12582912 (0::byte)"
  let ?run = "uploadFile example_env example_config example_world ''a.md'' ?content"
  have size: "0 < length ?content"
    by simp
  have res: "fst ?run = Inr example_item"
    by (simp add: run_defs example_defs)
  from uploadFile_chunk_requests [OF size, of example_world example_env example_config "''a.md''"] res
  have "map content_range (filter is_put (drop (length (calls example_world)) (calls (snd (snd ?run)))))
        = [Some ''bytes 0-5242879/12582912'',
           Some ''bytes 5242880-10485759/12582912'',
           Some ''bytes 10485760-12582911/12582912'']"
    by (auto simp: content_range_def CHUNK_SIZE_def text_defs upt_rec)
  with size res show ?thesis
    by blast
qed

text \<open>The claim as stated fails twice. A buffer of two full chunks is sent in two
  requests, the last starting at \<open>C\<close> and not at \<open>floor(S/C) * C = S\<close>; and when the
  server answers the first chunk with status 500, one request is issued and not three.\<close>

theorem uploadFile_chunk_requests_counterexample:
  "map content_range (filter is_put (calls (snd (snd (uploadFile example_env example_config example_world ''a.md'' (replicate 10485760 0))))))
     = [Some ''bytes 0-5242879/10485760'', Some ''bytes 5242880-10485759/10485760'']
   \<and> fst (uploadFile example_env example_config example_world ''a.md'' (replicate 10485760 0)) = Inr example_item
   \<and> (length (replicate 10485760 (0::byte)) div CHUNK_SIZE) * CHUNK_SIZE = 10485760
   \<and> length (filter is_put (calls (snd (snd
        (uploadFile example_env_failing example_config example_world ''a.md''
           (replicate 12582912 0)))))) = 1
   \<and> (length (replicate 12582912 (0::byte)) + CHUNK_SIZE - 1) div CHUNK_SIZE = 3"
  by (simp add: run_defs example_defs text_defs is_put_def content_range_def)

text \<open>
  C2. The claim asks for one empty-range request when the buffer is empty. The loop is
  \<^verbatim>\<open>while (offset < fileSize)\<close>, so for \<open>S = 0\<close> it is never entered: whatever the
  server does, \<^verbatim>\<open>uploadFile\<close> issues no \<^verbatim>\<open>PUT\<close> and throws; when the token is
  valid and the session is created, it throws "no final DriveItem after the upload".
\<close>

theorem uploadFile_empty_buffer:
  fixes e :: env and config :: "'a OneDriveConfig_scheme"
  shows "filter is_put (drop (length (calls w)) (calls (snd (snd (uploadFile e config w relativePath []))))) = []
         \<and> (\<exists>err. fst (uploadFile e config w relativePath []) = Inl err)
         \<and> fst (uploadFile example_env example_config example_world ''a.md'' []) = Inl NoFinalDriveItem"
proof -
  have general:
    "filter is_put (drop (length (calls w)) (calls (snd (snd (uploadFile e config w relativePath []))))) = []
     \<and> (\<exists>err. fst (uploadFile e config w relativePath []) = Inl err)"
  proof (cases rule: uploadFile_cases [where e = e and config = config and ?w0.0 = w
           and relativePath = relativePath and content = "[]"])
    case (early err)
    then show ?thesis by auto
  next
    case (loop token config1 w1 sessionResp sessionData)
    obtain new where new: "calls w1 = calls w @ new" "filter is_put new = []"
      using getAccessToken_calls [of e config w] loop(1) by auto
    have nput: "\<not> is_put (session_call e config1 token relativePath)"
      by (simp add: is_put_def session_call_def Let_def)
    show ?thesis
      using loop(6) new nput by (simp add: uploadChunks_done)
  qed
  have example: "fst (uploadFile example_env example_config example_world ''a.md'' []) = Inl NoFinalDriveItem"
    by (simp add: run_defs example_defs)
  from general example show ?thesis
    by (intro conjI) blast+
qed

text \<open>
  C3 (as amended). \<^verbatim>\<open>getAccessToken\<close> returns the cached token, with no request and
  the configuration unchanged, when the access token is not empty and
  \<open>now < accessTokenExpiresAt\<close>. Otherwise it performs exactly one refresh request when
  the refresh token is not empty, and none when it is empty (it throws).
\<close>

theorem getAccessToken_refresh_requests:
  "(truthy (accessToken config) \<and> Date_now e (ticks w) < accessTokenExpiresAt config \<longrightarrow>
      getAccessToken e config w = (Inr (accessToken config), config, w\<lparr>ticks := Suc (ticks w)\<rparr>))
   \<and> (\<not> (truthy (accessToken config) \<and> Date_now e (ticks w) < accessTokenExpiresAt config)
        \<and> truthy (refreshToken config) \<longrightarrow>
      calls (snd (snd (getAccessToken e config w))) = calls w @ [refresh_call config])
   \<and> (\<not> (truthy (accessToken config) \<and> Date_now e (ticks w) < accessTokenExpiresAt config)
        \<and> \<not> truthy (refreshToken config) \<longrightarrow>
      getAccessToken e config w = (Inl NoRefreshToken, config, w\<lparr>ticks := Suc (ticks w)\<rparr>))"
  by (auto simp: getAccessToken_def refreshAccessToken_def now_def issue_def Let_def
           split: option.splits token_result.splits prod.splits sum.splits)

theorem getAccessToken_refresh_requests_witness:
  "getAccessToken example_env example_config example_world
     = (Inr ''access-1'', example_config, example_world\<lparr>ticks := 1\<rparr>)
   \<and> calls (snd (snd (getAccessToken example_env example_expired example_world)))
     = [refresh_call example_expired]
   \<and> getAccessToken example_env (example_expired\<lparr>refreshToken := []\<rparr>) example_world
     = (Inl NoRefreshToken, example_expired\<lparr>refreshToken := []\<rparr>, example_world\<lparr>ticks := 1\<rparr>)"
  using getAccessToken_refresh_requests [of example_config example_env example_world]
    getAccessToken_refresh_requests [of example_expired example_env example_world]
    getAccessToken_refresh_requests [of "example_expired\<lparr>refreshToken := []\<rparr>" example_env example_world]
  by (simp add: example_defs truthy_def)

text \<open>The claim as stated fails in both directions: with an empty access token the
  refresh request is made although \<open>now < accessTokenExpiresAt\<close>, and with an expired
  token and an empty refresh token no request is made at all.\<close>

theorem getAccessToken_refresh_requests_counterexample:
  "Date_now example_env (ticks example_world) < accessTokenExpiresAt (example_config\<lparr>accessToken := []\<rparr>)
   \<and> calls (snd (snd (getAccessToken example_env (example_config\<lparr>accessToken := []\<rparr>) example_world)))
     = [refresh_call (example_config\<lparr>accessToken := []\<rparr>)]
   \<and> accessTokenExpiresAt (example_expired\<lparr>refreshToken := []\<rparr>) \<le> Date_now example_env (ticks example_world)
   \<and> calls (snd (snd (getAccessToken example_env (example_expired\<lparr>refreshToken := []\<rparr>) example_world)))
     = []"
  by (simp add: getAccessToken_def refreshAccessToken_def now_def issue_def Let_def truthy_def
        example_defs)



text \<open>
  C5 (as amended). On a successful refresh whose reply has no \<^verbatim>\<open>refresh_token\<close>, the
  stored refresh token becomes the empty string (\<^verbatim>\<open>result.refresh_token ?? ""\<close>); so
  does the one \<^verbatim>\<open>setConfigBySuccessfulAuthInplace\<close> stores
  (\<^verbatim>\<open>authRes.refresh_token || ""\<close>).
\<close>

theorem getAccessToken_refresh_token_cleared:
  "(\<not> (truthy (accessToken config) \<and> Date_now e (ticks w) < accessTokenExpiresAt config)
      \<and> truthy (refreshToken config)
      \<and> request_token e (calls w) (refresh_call config) = Some (AuthSuccess result)
      \<and> refresh_token result = None \<longrightarrow>
      fst (getAccessToken e config w) = Inr (access_token result)
      \<and> refreshToken (fst (snd (getAccessToken e config w))) = [])
   \<and> (refresh_token authRes = None \<longrightarrow>
      refreshToken' (fst (snd (setConfigBySuccessfulAuthInplace e fullConfig authRes save w))) = [])"
  by (auto simp: getAccessToken_def refreshAccessToken_def now_def issue_def Let_def
         setConfigBySuccessfulAuthInplace_def truthy_opt_def split: option.splits)

theorem getAccessToken_refresh_token_cleared_witness:
  "truthy (refreshToken example_expired)
   \<and> refresh_token example_success = None
   \<and> fst (getAccessToken example_env example_expired example_world) = Inr ''access-2''
   \<and> refreshToken (fst (snd (getAccessToken example_env example_expired example_world))) = []
   \<and> refreshToken' (fst (snd (setConfigBySuccessfulAuthInplace example_env example_fullConfig
        example_success None example_world))) = []"
  using getAccessToken_refresh_token_cleared
    [of example_expired example_env example_world example_success example_success
        example_fullConfig None]
  by (simp add: example_defs truthy_def)

text \<open>The claim as stated fails: the refresh token stored before the refresh is gone
  after it.\<close>

theorem getAccessToken_refresh_token_cleared_counterexample:
  "refreshToken example_expired = ''refresh-1''
   \<and> request_token example_env (calls example_world) (refresh_call example_expired)
       = Some (AuthSuccess example_success)
   \<and> refresh_token example_success = None
   \<and> fst (getAccessToken example_env example_expired example_world) = Inr ''access-2''
   \<and> refreshToken (fst (snd (getAccessToken example_env example_expired example_world)))
       \<noteq> refreshToken example_expired"
  by (simp add: getAccessToken_def refreshAccessToken_def now_def issue_def Let_def truthy_def
        example_defs)

text \<open>An item is returned only when a chunk reply of the run carried it.\<close>

lemma uploadFile_item_from_reply:
  fixes e :: env and config :: "'a OneDriveConfig_scheme"
  assumes w': "w' = snd (snd (uploadFile e config w relativePath content))"
    and res: "fst (uploadFile e config w relativePath content) = Inr item"
  shows "\<exists>k resp. length (calls w) \<le> k \<and> k < length (calls w') \<and> is_put (calls w' ! k)
           \<and> fetch_chunk e (take k (calls w')) (calls w' ! k) = Some resp
           \<and> ok resp \<and> json resp = Some (JsonValue item) \<and> truthy_opt (item_id item)"
proof (cases rule: uploadFile_cases [where e = e and config = config and ?w0.0 = w
         and relativePath = relativePath and content = content])
  case (early err)
  with res show ?thesis by simp
next
  case (loop token config1 w1 sessionResp sessionData)
  let ?u = "the (uploadUrl sessionData)"
  let ?sc = "session_call e config1 token relativePath"
  let ?r = "uploadChunks e ?u content 0 None (issue ?sc w1)"
  obtain rr w3 where r: "?r = (rr, w3)" by (cases ?r) auto
  have w3: "w' = w3"
    using loop(6) r w' by (auto split: sum.splits option.splits)
  have rr: "rr = Inr (Some item)"
    using loop(6) r res by (auto split: sum.splits option.splits)
  obtain new0 where new0: "calls w1 = calls w @ new0"
    using getAccessToken_calls [of e config w] loop(1) by auto
  obtain new where new: "calls w3 = calls (issue ?sc w1) @ new" "filter is_put new = new"
    using uploadChunks_puts [of e ?u content 0 None "issue ?sc w1"] r by auto
  from rr r uploadChunks_Some [of e ?u content 0 None "issue ?sc w1" item]
  obtain k resp where k: "length (calls (issue ?sc w1)) \<le> k" "k < length (calls w3)"
    "fetch_chunk e (take k (calls w3)) (calls w3 ! k) = Some resp"
    "ok resp" "json resp = Some (JsonValue item)" "truthy_opt (item_id item)"
    by auto
  have "calls w3 ! k = new ! (k - length (calls (issue ?sc w1)))"
    using k(1,2) new(1) by (simp add: nth_append)
  moreover have "k - length (calls (issue ?sc w1)) < length new"
    using k(1,2) new(1) by auto
  ultimately have "calls w3 ! k \<in> set new" by (metis nth_mem)
  then have put: "is_put (calls w3 ! k)"
    using new(2) by (metis filter_id_conv)
  have ge: "length (calls w) \<le> k" using k(1) new0 by simp
  from ge k put show ?thesis unfolding w3 by blast
qed

text \<open>When every chunk reply was a success with a JSON value that carries no item id,
  the upload ends in the throw of its last statement.\<close>

lemma uploadFile_no_reply_with_id:
  fixes e :: env and config :: "'a OneDriveConfig_scheme"
  assumes w': "w' = snd (snd (uploadFile e config w relativePath content))"
    and sent: "\<exists>k. length (calls w) \<le> k \<and> k < length (calls w') \<and> is_put (calls w' ! k)"
    and noid: "\<forall>k. length (calls w) \<le> k \<and> k < length (calls w') \<and> is_put (calls w' ! k) \<longrightarrow>
                 (\<exists>resp rjson. fetch_chunk e (take k (calls w')) (calls w' ! k) = Some resp
                    \<and> ok resp \<and> json resp = Some (JsonValue rjson) \<and> \<not> truthy_opt (item_id rjson))"
  shows "fst (uploadFile e config w relativePath content) = Inl NoFinalDriveItem"
proof (cases rule: uploadFile_cases [where e = e and config = config and ?w0.0 = w
         and relativePath = relativePath and content = content])
  case (early err)
  from sent obtain k where k: "length (calls w) \<le> k" "k < length (calls w')" "is_put (calls w' ! k)"
    by auto
  from filter_put_nth [OF early(3) [folded w'] k(1,2)] k(3) show ?thesis by simp
next
  case (loop token config1 w1 sessionResp sessionData)
  let ?u = "the (uploadUrl sessionData)"
  let ?sc = "session_call e config1 token relativePath"
  let ?r = "uploadChunks e ?u content 0 None (issue ?sc w1)"
  obtain rr w3 where r: "?r = (rr, w3)" by (cases ?r) auto
  have w3: "w' = w3"
    using loop(6) r w' by (auto split: sum.splits option.splits)
  obtain new0 where new0: "calls w1 = calls w @ new0"
    using getAccessToken_calls [of e config w] loop(1) by auto
  obtain new where new: "calls w3 = calls (issue ?sc w1) @ new" "filter is_put new = new"
    using uploadChunks_puts [of e ?u content 0 None "issue ?sc w1"] r by auto
  have put: "is_put (calls w3 ! k)" and ge: "length (calls w) \<le> k"
    if "length (calls (issue ?sc w1)) \<le> k" "k < length (calls w3)" for k
  proof -
    have "calls w3 ! k = new ! (k - length (calls (issue ?sc w1)))"
      using that new(1) by (simp add: nth_append)
    moreover have "k - length (calls (issue ?sc w1)) < length new"
      using that new(1) by auto
    ultimately have "calls w3 ! k \<in> set new" by (metis nth_mem)
    then show "is_put (calls w3 ! k)"
      using new(2) by (metis filter_id_conv)
    show "length (calls w) \<le> k" using that(1) new0 by simp
  qed
  show ?thesis
  proof (cases rr)
    case (Inl err)
    then have bad: "length (calls (issue ?sc w1)) < length (calls w3)"
      "\<nexists>resp rjson. fetch_chunk e (butlast (calls w3)) (last (calls w3)) = Some resp
          \<and> ok resp \<and> json resp = Some (JsonValue rjson)"
      using uploadChunks_Inl [of e ?u content 0 None "issue ?sc w1" err] r by auto
    let ?k = "length (calls w3) - 1"
    have k: "length (calls (issue ?sc w1)) \<le> ?k" "?k < length (calls w3)"
      using bad(1) by auto
    have ne: "calls w3 \<noteq> []" using k(2) by auto
    have "take ?k (calls w3) = butlast (calls w3)" "calls w3 ! ?k = last (calls w3)"
      using ne by (simp_all add: butlast_conv_take last_conv_nth)
    with noid [rule_format, of ?k] put [OF k] ge [OF k] k(2) bad(2) w3
    show ?thesis by auto
  next
    case (Inr x)
    show ?thesis
    proof (cases x)
      case None
      with Inr r loop(6) show ?thesis by simp
    next
      case (Some item)
      with Inr r uploadChunks_Some [of e ?u content 0 None "issue ?sc w1" item]
      obtain k resp where k: "length (calls (issue ?sc w1)) \<le> k" "k < length (calls w3)"
        "fetch_chunk e (take k (calls w3)) (calls w3 ! k) = Some resp"
        "json resp = Some (JsonValue item)" "truthy_opt (item_id item)"
        by auto
      with noid [rule_format, of k] put [OF k(1,2)] ge [OF k(1,2)] w3
      show ?thesis by auto
    qed
  qed
qed


text \<open>
  C6 (as amended). An upload in which no chunk reply carried the item id returns no
  item: \<^verbatim>\<open>uploadFile\<close> throws. When every chunk request (there is at least one) was
  answered with a 2xx reply whose body is a JSON value other than \<^verbatim>\<open>null\<close> that
  carries no item id, the error is the one of its last statement, "no final DriveItem
  after the upload". A 2xx reply whose body is not JSON, or is \<^verbatim>\<open>null\<close>, also lacks
  the id, but there the upload stops at that chunk with the error of \<^verbatim>\<open>resp.json()\<close>,
  or of the property read.
\<close>

theorem uploadFile_not_finalized:
  fixes e :: env and config :: "'a OneDriveConfig_scheme"
  assumes w': "w' = snd (snd (uploadFile e config w relativePath content))"
  shows "((\<forall>k. length (calls w) \<le> k \<and> k < length (calls w') \<and> is_put (calls w' ! k) \<longrightarrow>
             \<not> (\<exists>resp rjson. fetch_chunk e (take k (calls w')) (calls w' ! k) = Some resp
                    \<and> ok resp \<and> json resp = Some (JsonValue rjson) \<and> truthy_opt (item_id rjson)))
          \<longrightarrow> (\<exists>err. fst (uploadFile e config w relativePath content) = Inl err))
       \<and> ((\<exists>k. length (calls w) \<le> k \<and> k < length (calls w') \<and> is_put (calls w' ! k))
          \<and> (\<forall>k. length (calls w) \<le> k \<and> k < length (calls w') \<and> is_put (calls w' ! k) \<longrightarrow>
                (\<exists>resp rjson. fetch_chunk e (take k (calls w')) (calls w' ! k) = Some resp
                   \<and> ok resp \<and> json resp = Some (JsonValue rjson) \<and> \<not> truthy_opt (item_id rjson)))
          \<longrightarrow> fst (uploadFile e config w relativePath content) = Inl NoFinalDriveItem)"
proof (intro conjI impI)
  assume noid: "\<forall>k. length (calls w) \<le> k \<and> k < length (calls w') \<and> is_put (calls w' ! k) \<longrightarrow>
             \<not> (\<exists>resp rjson. fetch_chunk e (take k (calls w')) (calls w' ! k) = Some resp
                    \<and> ok resp \<and> json resp = Some (JsonValue rjson) \<and> truthy_opt (item_id rjson))"
  show "\<exists>err. fst (uploadFile e config w relativePath content) = Inl err"
  proof (cases "fst (uploadFile e config w relativePath content)")
    case (Inl err)
    then show ?thesis by simp
  next
    case (Inr item)
    from uploadFile_item_from_reply [OF w' Inr] noid show ?thesis by blast
  qed
next
  assume a: "(\<exists>k. length (calls w) \<le> k \<and> k < length (calls w') \<and> is_put (calls w' ! k))
          \<and> (\<forall>k. length (calls w) \<le> k \<and> k < length (calls w') \<and> is_put (calls w' ! k) \<longrightarrow>
                (\<exists>resp rjson. fetch_chunk e (take k (calls w')) (calls w' ! k) = Some resp
                   \<and> ok resp \<and> json resp = Some (JsonValue rjson) \<and> \<not> truthy_opt (item_id rjson)))"
  show "fst (uploadFile e config w relativePath content) = Inl NoFinalDriveItem"
    by (rule uploadFile_no_reply_with_id [OF w' conjunct1 [OF a] conjunct2 [OF a]])
qed

theorem uploadFile_not_finalized_witness:
  "calls (snd (snd (uploadFile example_env_pending example_config example_world ''a.md'' [1, 2, 3])))
     = [session_call example_env_pending example_config ''access-1'' ''a.md'',
        chunk_call ''https://upload.example/1'' [1, 2, 3] 0 3]
   \<and> fetch_chunk example_env_pending
        [session_call example_env_pending example_config ''access-1'' ''a.md'']
        (chunk_call ''https://upload.example/1'' [1, 2, 3] 0 3)
       = Some \<lparr>status = 202, text_body = [], json = Some (JsonValue example_pending)\<rparr>
   \<and> fst (uploadFile example_env_pending example_config example_world ''a.md'' [1, 2, 3])
       = Inl NoFinalDriveItem
   \<and> (\<exists>err. fst (uploadFile example_env_not_json example_config example_world ''a.md'' [1, 2, 3])
               = Inl err)"
proof -
  let ?run = "uploadFile example_env_pending example_config example_world ''a.md'' [1, 2, 3]"
  let ?sc = "session_call example_env_pending example_config ''access-1'' ''a.md''"
  let ?cc = "chunk_call ''https://upload.example/1'' [1, 2, 3] 0 3"
  have trace: "calls (snd (snd ?run)) = [?sc, ?cc]"
    by (simp add: uploadFile_def getAccessToken_def now_def issue_def Let_def truthy_def
          truthy_opt_def ok_def uploadChunks.simps CHUNK_SIZE_def chunk_call_def subarray_def
          example_defs)
  have reply: "fetch_chunk example_env_pending h c
                 = Some \<lparr>status = 202, text_body = [], json = Some (JsonValue example_pending)\<rparr>" for h c
    by (simp add: example_defs)
  have sent: "\<exists>k. length (calls example_world) \<le> k \<and> k < length (calls (snd (snd ?run)))
                \<and> is_put (calls (snd (snd ?run)) ! k)"
    unfolding trace by (intro exI [of _ 1]) (simp add: is_put_def chunk_call_def example_defs)
  have noid: "\<forall>k. length (calls example_world) \<le> k \<and> k < length (calls (snd (snd ?run)))
                  \<and> is_put (calls (snd (snd ?run)) ! k) \<longrightarrow>
                (\<exists>resp rjson. fetch_chunk example_env_pending (take k (calls (snd (snd ?run))))
                                 (calls (snd (snd ?run)) ! k) = Some resp
                   \<and> ok resp \<and> json resp = Some (JsonValue rjson) \<and> \<not> truthy_opt (item_id rjson))"
    unfolding reply by (simp add: ok_def truthy_opt_def example_defs)
  have finalize: "fst ?run = Inl NoFinalDriveItem"
    using uploadFile_not_finalized
            [where e = example_env_pending and config = example_config and w = example_world
               and relativePath = "''a.md''" and content = "[1, 2, 3]", OF refl]
          sent noid
    by blast
  let ?run' = "uploadFile example_env_not_json example_config example_world ''a.md'' [1, 2, 3]"
  have reply': "fetch_chunk example_env_not_json h c
                  = Some \<lparr>status = 202, text_body = [], json = None\<rparr>" for h c
    by (simp add: example_defs)
  have never: "\<forall>k. length (calls example_world) \<le> k \<and> k < length (calls (snd (snd ?run')))
                  \<and> is_put (calls (snd (snd ?run')) ! k) \<longrightarrow>
                \<not> (\<exists>resp rjson. fetch_chunk example_env_not_json (take k (calls (snd (snd ?run'))))
                                   (calls (snd (snd ?run')) ! k) = Some resp
                      \<and> ok resp \<and> json resp = Some (JsonValue rjson) \<and> truthy_opt (item_id rjson))"
    unfolding reply' by simp
  have fails: "\<exists>err. fst ?run' = Inl err"
    using uploadFile_not_finalized
            [where e = example_env_not_json and config = example_config and w = example_world
               and relativePath = "''a.md''" and content = "[1, 2, 3]", OF refl]
          never
    by blast
  from trace reply finalize fails show ?thesis
    by (intro conjI)
qed

text \<open>The claim as stated fails: a 2xx reply to the only chunk with a body that is not
  JSON, or with the body \<^verbatim>\<open>null\<close>, carries no item id, and the upload ends in another
  error than the one of its last statement.\<close>

theorem uploadFile_not_finalized_counterexample:
  "fetch_chunk example_env_not_json
     [session_call example_env_not_json example_config ''access-1'' ''a.md'']
     (chunk_call ''https://upload.example/1'' [1, 2, 3] 0 3)
     = Some \<lparr>status = 202, text_body = [], json = None\<rparr>
   \<and> ok \<lparr>status = 202, text_body = [], json = (None :: DriveItem parsed option)\<rparr>
   \<and> fst (uploadFile example_env_not_json example_config example_world ''a.md'' [1, 2, 3])
       = Inl BodyNotJson
   \<and> fst (uploadFile example_env_null_chunk example_config example_world ''a.md'' [1, 2, 3])
       = Inl TypeError
   \<and> BodyNotJson \<noteq> NoFinalDriveItem \<and> TypeError \<noteq> NoFinalDriveItem"
  by (simp add: run_defs example_defs)

text \<open>
  C7. With an empty access token or an empty refresh token, \<^verbatim>\<open>syncVault\<close> shows the
  "not authenticated" notice and does nothing else: the trace of remote calls, the
  status bar and the settings are the ones it was called with.
\<close>

theorem syncVault_unauthenticated:
  assumes "accessToken (settings p) = [] \<or> refreshToken (settings p) = []"
  shows "syncVault e p = p\<lparr>notices := notices p @ [NotAuthenticated]\<rparr>
         \<and> calls (remote (syncVault e p)) = calls (remote p)
         \<and> statusBarEl (syncVault e p) = statusBarEl p
         \<and> settings (syncVault e p) = settings p"
  using assms by (auto simp: syncVault_def isAuthenticated_def truthy_def Notice_def)

theorem syncVault_unauthenticated_witness:
  "refreshToken (settings (example_plugin\<lparr>settings := (settings example_plugin)\<lparr>refreshToken := []\<rparr>\<rparr>)) = []
   \<and> notices (syncVault example_env
        (example_plugin\<lparr>settings := (settings example_plugin)\<lparr>refreshToken := []\<rparr>\<rparr>))
       = [NotAuthenticated]
   \<and> calls (remote (syncVault example_env
        (example_plugin\<lparr>settings := (settings example_plugin)\<lparr>refreshToken := []\<rparr>\<rparr>))) = []
   \<and> statusBarEl (syncVault example_env
        (example_plugin\<lparr>settings := (settings example_plugin)\<lparr>refreshToken := []\<rparr>\<rparr>))
       = Some ''OneDrive: Idle''"
  using syncVault_unauthenticated
    [of "example_plugin\<lparr>settings := (settings example_plugin)\<lparr>refreshToken := []\<rparr>\<rparr>" example_env]
  by (simp add: example_defs)

text \<open>
  C8 (as amended). \<^verbatim>\<open>getAllFilesInFolder\<close> never fails: it returns the empty list when
  nothing is at the root path or what is there is not a folder, as it does for a folder
  with no file below it. The missing root is reported by the caller: \<^verbatim>\<open>syncVault\<close>,
  once authenticated, looks the root up before it enumerates and, when it is not a
  folder, shows the notice, sets the status to "Error: no local folder" and ends the
  pass with no remote call.
\<close>

theorem getAllFilesInFolder_never_fails:
  "((\<nexists>p cs. getAbstractFileByPath e folderPath = Some (TFolder p cs)) \<longrightarrow>
      getAllFilesInFolder e folderPath = [])
   \<and> (getAbstractFileByPath e folderPath = Some (TFolder p cs)
        \<and> (\<forall>x. under x (TFolder p cs) \<longrightarrow> \<not> is_TFile x) \<longrightarrow>
      getAllFilesInFolder e folderPath = [])
   \<and> (isAuthenticated pl
        \<and> (\<nexists>p cs. getAbstractFileByPath e (localVaultFolder (settings pl)) = Some (TFolder p cs)) \<longrightarrow>
      syncVault e pl =
        updateStatusBar ''Error: no local folder''
          (Notice (LocalFolderMissing (localVaultFolder (settings pl)))
             (updateStatusBar ''Syncing...'' pl))
      \<and> remote (syncVault e pl) = remote pl)"
proof (intro conjI impI)
  assume "\<nexists>p cs. getAbstractFileByPath e folderPath = Some (TFolder p cs)"
  then show "getAllFilesInFolder e folderPath = []"
    by (rule getAllFilesInFolder_no_folder)
next
  assume a: "getAbstractFileByPath e folderPath = Some (TFolder p cs)
             \<and> (\<forall>x. under x (TFolder p cs) \<longrightarrow> \<not> is_TFile x)"
  then have "\<forall>x \<in> set (descendants (TFolder p cs)). \<not> is_TFile x"
    using set_descendants(1) [of "TFolder p cs"] by blast
  then have "filter is_TFile (descendants (TFolder p cs)) = []"
    by (simp only: filter_empty_conv simp_thms)
  with a show "getAllFilesInFolder e folderPath = []"
    by (simp only: getAllFilesInFolder_folder)
next
  assume a: "isAuthenticated pl
             \<and> (\<nexists>p cs. getAbstractFileByPath e (localVaultFolder (settings pl)) = Some (TFolder p cs))"
  then show "syncVault e pl =
        updateStatusBar ''Error: no local folder''
          (Notice (LocalFolderMissing (localVaultFolder (settings pl)))
             (updateStatusBar ''Syncing...'' pl))"
    by (rule syncVault_no_folder)
  then show "remote (syncVault e pl) = remote pl"
    by (simp add: updateStatusBar_def Notice_def split: option.splits)
qed

theorem getAllFilesInFolder_never_fails_witness:
  "getAbstractFileByPath example_env_no_folder ''root'' = None
   \<and> getAllFilesInFolder example_env_no_folder ''root'' = []
   \<and> getAbstractFileByPath example_env_empty_folder ''root'' = Some (TFolder ''root'' [TFolder ''root/empty'' []])
   \<and> getAllFilesInFolder example_env_empty_folder ''root'' = []
   \<and> isAuthenticated example_plugin
   \<and> statusBarEl (syncVault example_env_no_folder example_plugin) = Some ''OneDrive: Error: no local folder''
   \<and> notices (syncVault example_env_no_folder example_plugin) = [LocalFolderMissing ''root'']
   \<and> calls (remote (syncVault example_env_no_folder example_plugin)) = []"
proof -
  have none: "getAbstractFileByPath example_env_no_folder path = None" for path
    by (simp add: example_env_no_folder_def example_env_def)
  have folder: "getAbstractFileByPath example_env_empty_folder ''root''
                  = Some (TFolder ''root'' [TFolder ''root/empty'' []])"
    by (simp add: example_env_empty_folder_def example_env_def)
  have nofile: "\<forall>x. under x (TFolder ''root'' [TFolder ''root/empty'' []]) \<longrightarrow> \<not> is_TFile x"
  proof (intro allI impI)
    fix x
    assume "under x (TFolder ''root'' [TFolder ''root/empty'' []])"
    then have "x \<in> set (descendants (TFolder ''root'' [TFolder ''root/empty'' []]))"
      by (simp only: set_descendants(1) mem_Collect_eq)
    then show "\<not> is_TFile x"
      by auto
  qed
  have auth: "isAuthenticated example_plugin"
    by (simp add: isAuthenticated_def truthy_def example_plugin_def example_config_def
          OneDriveConfig.defs)
  have root: "localVaultFolder (settings example_plugin) = ''root''"
    by (simp add: example_plugin_def example_config_def OneDriveConfig.defs)
  have missing: "\<nexists>p cs. getAbstractFileByPath example_env_no_folder path = Some (TFolder p cs)" for path
    by (simp only: none) simp
  note at_missing =
    getAllFilesInFolder_never_fails
      [of example_env_no_folder "''root''" "''root''" "[]" example_plugin]
  note at_empty =
    getAllFilesInFolder_never_fails
      [of example_env_empty_folder "''root''" "''root''" "[TFolder ''root/empty'' []]" example_plugin]
  have r1: "getAllFilesInFolder example_env_no_folder ''root'' = []"
    using at_missing missing by blast
  have r2: "getAllFilesInFolder example_env_empty_folder ''root'' = []"
    using at_empty folder nofile by blast
  have r3: "syncVault example_env_no_folder example_plugin =
              updateStatusBar ''Error: no local folder''
                (Notice (LocalFolderMissing (localVaultFolder (settings example_plugin)))
                   (updateStatusBar ''Syncing...'' example_plugin))"
    using at_missing auth missing by blast
  have status: "statusBarEl (syncVault example_env_no_folder example_plugin)
                  = Some ''OneDrive: Error: no local folder''"
    unfolding r3 root by (simp add: updateStatusBar_def Notice_def example_plugin_def)
  have shown: "notices (syncVault example_env_no_folder example_plugin) = [LocalFolderMissing ''root'']"
    unfolding r3 root by (simp add: updateStatusBar_def Notice_def example_plugin_def)
  have quiet: "calls (remote (syncVault example_env_no_folder example_plugin)) = []"
    unfolding r3 root
    by (simp add: updateStatusBar_def Notice_def example_plugin_def example_world_def)
  from none [of "''root''"] r1 folder r2 auth status shown quiet show ?thesis
    by (intro conjI)
qed

text \<open>The claim as stated fails: with nothing at the root path, and with a file there,
  the enumeration returns the empty list, the result it gives for an empty folder.\<close>

theorem getAllFilesInFolder_never_fails_counterexample:
  "getAbstractFileByPath example_env_no_folder ''MyLocalVault'' = None
   \<and> getAllFilesInFolder example_env_no_folder ''MyLocalVault'' = []
   \<and> getAbstractFileByPath example_env_file_root ''MyLocalVault'' = Some (TFile ''MyLocalVault'')
   \<and> getAllFilesInFolder example_env_file_root ''MyLocalVault'' = []"
  by (simp add: getAllFilesInFolder_def example_defs)

text \<open>
  C9. For a folder at the root path, the enumeration is exactly the files below it:
  its elements are the files that lie under the root at any depth, and no folder; it
  lists them as often as they occur in the tree, in traversal order; so in a tree
  whose entries are pairwise distinct every file is listed exactly once. Empty folders
  add nothing.
\<close>

theorem getAllFilesInFolder_files_once:
  assumes "getAbstractFileByPath e folderPath = Some (TFolder p cs)"
  shows "set (getAllFilesInFolder e folderPath) = {x. under x (TFolder p cs) \<and> is_TFile x}
         \<and> getAllFilesInFolder e folderPath = filter is_TFile (descendants (TFolder p cs))
         \<and> (distinct (descendants (TFolder p cs)) \<longrightarrow> distinct (getAllFilesInFolder e folderPath))"
proof -
  have eq: "getAllFilesInFolder e folderPath = filter is_TFile (descendants (TFolder p cs))"
    using assms by (rule getAllFilesInFolder_folder)
  have "set (filter is_TFile (descendants (TFolder p cs))) = {x. under x (TFolder p cs) \<and> is_TFile x}"
    using set_descendants(1) [of "TFolder p cs"] by (simp only: set_filter) blast
  then have elems: "set (getAllFilesInFolder e folderPath) = {x. under x (TFolder p cs) \<and> is_TFile x}"
    by (simp only: eq)
  have once: "distinct (descendants (TFolder p cs)) \<longrightarrow> distinct (getAllFilesInFolder e folderPath)"
    unfolding eq by (intro impI) (rule distinct_filter)
  from elems eq once show ?thesis
    by (intro conjI)
qed

theorem getAllFilesInFolder_files_once_witness:
  "getAbstractFileByPath example_env ''root'' = Some example_root
   \<and> distinct (descendants example_root)
   \<and> getAllFilesInFolder example_env ''root'' = [TFile ''root/a.md'', TFile ''root/sub/b.md'']
   \<and> map (\<lambda>file. drop (length ''root'' + 1) (path file)) (getAllFilesInFolder example_env ''root'')
       = [''a.md'', ''sub/b.md'']
   \<and> {x. under x example_root \<and> is_TFile x} = {TFile ''root/a.md'', TFile ''root/sub/b.md''}"
proof -
  have look: "getAbstractFileByPath example_env ''root''
                = Some (TFolder ''root''
                    [TFile ''root/a.md'', TFolder ''root/sub'' [TFile ''root/sub/b.md''],
                     TFolder ''root/empty'' []])"
    by (simp add: example_env_def example_root_def)
  have run: "getAllFilesInFolder example_env ''root'' = [TFile ''root/a.md'', TFile ''root/sub/b.md'']"
    by (simp add: getAllFilesInFolder_def example_env_def example_root_def)
  have once: "distinct (descendants example_root)"
    by (simp add: example_root_def)
  have "set (getAllFilesInFolder example_env ''root'') = {x. under x example_root \<and> is_TFile x}"
    using getAllFilesInFolder_files_once [OF look] unfolding example_root_def by (rule conjunct1)
  then have "{x. under x example_root \<and> is_TFile x} = set [TFile ''root/a.md'', TFile ''root/sub/b.md'']"
    by (simp only: run)
  then have elems: "{x. under x example_root \<and> is_TFile x} = {TFile ''root/a.md'', TFile ''root/sub/b.md''}"
    by (simp only: list.set)
  have paths: "map (\<lambda>file. drop (length ''root'' + 1) (path file)) (getAllFilesInFolder example_env ''root'')
                 = [''a.md'', ''sub/b.md'']"
    unfolding run by simp
  from look run once elems paths show ?thesis
    by (simp only: example_root_def simp_thms)
qed

text \<open>
  C10 (as amended). When the listing request resolves (a success status) with a JSON
  body other than \<^verbatim>\<open>null\<close> that has no \<^verbatim>\<open>value\<close> field, as every JSON object
  without one, \<^verbatim>\<open>listRemoteFolder\<close> returns the empty list and does not throw: the
  result it gives for a body whose \<^verbatim>\<open>value\<close> is the empty array. On the body
  \<^verbatim>\<open>null\<close> the read of \<^verbatim>\<open>data.value\<close> throws a TypeError.
\<close>

theorem listRemoteFolder_without_value:
  assumes "getAccessToken e config w = (Inr token, config1, w1)"
  shows "(request_children e (calls w1) (children_call config1 token) = Some (JsonValue data)
            \<and> (value' data = None \<or> value' data = Some []) \<longrightarrow>
          listRemoteFolder e config w = (Inr [], config1, issue (children_call config1 token) w1))
       \<and> (request_children e (calls w1) (children_call config1 token) = Some JsonNull \<longrightarrow>
          listRemoteFolder e config w = (Inl TypeError, config1, issue (children_call config1 token) w1))"
  using assms by (auto simp: listRemoteFolder_def Let_def)

theorem listRemoteFolder_without_value_witness:
  "getAccessToken example_env example_config example_world
     = (Inr ''access-1'', example_config, example_world\<lparr>ticks := 1\<rparr>)
   \<and> request_children example_env (calls (example_world\<lparr>ticks := 1\<rparr>))
        (children_call example_config ''access-1'') = Some (JsonValue \<lparr>value' = None\<rparr>)
   \<and> fst (listRemoteFolder example_env example_config example_world) = Inr []
   \<and> request_children example_env_null_listing (calls (example_world\<lparr>ticks := 1\<rparr>))
        (children_call example_config ''access-1'') = Some JsonNull
   \<and> fst (listRemoteFolder example_env_null_listing example_config example_world) = Inl TypeError"
proof -
  have tok: "getAccessToken example_env example_config example_world
               = (Inr ''access-1'', example_config, example_world\<lparr>ticks := 1\<rparr>)"
    by (simp add: getAccessToken_def now_def truthy_def example_defs)
  have reply: "request_children example_env (calls (example_world\<lparr>ticks := 1\<rparr>))
                 (children_call example_config ''access-1'') = Some (JsonValue \<lparr>value' = None\<rparr>)"
    by (simp add: example_defs)
  have tok': "getAccessToken example_env_null_listing example_config example_world
               = (Inr ''access-1'', example_config, example_world\<lparr>ticks := 1\<rparr>)"
    by (simp add: getAccessToken_def now_def truthy_def example_defs)
  have reply': "request_children example_env_null_listing (calls (example_world\<lparr>ticks := 1\<rparr>))
                 (children_call example_config ''access-1'') = Some JsonNull"
    by (simp add: example_defs)
  have empty: "fst (listRemoteFolder example_env example_config example_world) = Inr []"
    using listRemoteFolder_without_value [OF tok, of "\<lparr>value' = None\<rparr>"] reply by simp
  have thrown: "fst (listRemoteFolder example_env_null_listing example_config example_world) = Inl TypeError"
    using listRemoteFolder_without_value [OF tok', of "\<lparr>value' = None\<rparr>"] reply' by simp
  from tok reply empty reply' thrown show ?thesis
    by (intro conjI)
qed

text \<open>The claim as stated fails: the body \<^verbatim>\<open>null\<close> of a resolved listing request has no
  \<^verbatim>\<open>value\<close> field, and \<^verbatim>\<open>listRemoteFolder\<close> throws.\<close>

theorem listRemoteFolder_without_value_counterexample:
  "getAccessToken example_env_null_listing example_config example_world
     = (Inr ''access-1'', example_config, example_world\<lparr>ticks := 1\<rparr>)
   \<and> request_children example_env_null_listing (calls (example_world\<lparr>ticks := 1\<rparr>))
        (children_call example_config ''access-1'') = Some JsonNull
   \<and> fst (listRemoteFolder example_env_null_listing example_config example_world) = Inl TypeError"
  by (simp add: listRemoteFolder_def getAccessToken_def now_def truthy_def Let_def example_defs)

end
